theory Spec2Isabelle
  imports Main "HOL-Library.Word"
begin

unbundle bit_operations_syntax

section \<open>Strings and the library functions of package strings\<close>

text \<open>
  A Go string is a sequence of bytes, here a \<^typ>\<open>string\<close>. The functions of package
  \<^verbatim>\<open>strings\<close> that dconfig.go calls are modelled on ASCII: \<^verbatim>\<open>ToUpper\<close> and
  \<^verbatim>\<open>ToLower\<close> map the 26 letters and leave every other byte alone, and
  \<^verbatim>\<open>TrimSpace\<close> removes the six ASCII white space bytes that
  \<^verbatim>\<open>unicode.IsSpace\<close> accepts (tab, line feed, vertical tab, form feed,
  carriage return, space). Multi-byte UTF-8 letters and spaces are outside the model.
\<close>

definition ascii_lower :: string where
  "ascii_lower = ''abcdefghijklmnopqrstuvwxyz''"

definition ascii_upper :: string where
  "ascii_upper = ''ABCDEFGHIJKLMNOPQRSTUVWXYZ''"

definition upper_byte :: "char \<Rightarrow> char" where
  "upper_byte c = (case map_of (zip ascii_lower ascii_upper) c of Some u \<Rightarrow> u | None \<Rightarrow> c)"

definition lower_byte :: "char \<Rightarrow> char" where
  "lower_byte c = (case map_of (zip ascii_upper ascii_lower) c of Some l \<Rightarrow> l | None \<Rightarrow> c)"

definition ToUpper :: "string \<Rightarrow> string" where
  "ToUpper s = map upper_byte s"

definition ToLower :: "string \<Rightarrow> string" where
  "ToLower s = map lower_byte s"

definition unicode_IsSpace :: "char \<Rightarrow> bool" where
  "unicode_IsSpace c =
     (c \<in> set [CHR 0x09, CHR 0x0A, CHR 0x0B, CHR 0x0C, CHR 0x0D, CHR '' ''])"

definition TrimSpace :: "string \<Rightarrow> string" where
  "TrimSpace s = rev (dropWhile unicode_IsSpace (rev (dropWhile unicode_IsSpace s)))"

section \<open>Flags and type tags (dconfig.go, lines 17 to 50)\<close>

text \<open>
  The flags and the type tags are \<^verbatim>\<open>uint8\<close> constants. The constant \<^verbatim>\<open>INT\<close> of
  the source is \<open>INT_type\<close> here, since \<open>INT\<close> is syntax of HOL.
\<close>

type_synonym u8 = "8 word"

definition STRIP :: u8 where "STRIP = 1"
definition UPPER :: u8 where "UPPER = 2"
definition LOWER :: u8 where "LOWER = 4"
definition UNSIGNED :: u8 where "UNSIGNED = 8"
definition NONE :: u8 where "NONE = 0"
definition BOOL :: u8 where "BOOL = 16"
definition STRING :: u8 where "STRING = 128"
definition INT_type :: u8 where "INT_type = 64"
definition FLOAT :: u8 where "FLOAT = 32"

definition all_types :: u8 where
  "all_types = STRING OR INT_type OR FLOAT OR BOOL"

definition disallowed_str_opts :: u8 where
  "disallowed_str_opts = UNSIGNED"

definition disallowed_int_opts :: u8 where
  "disallowed_int_opts = STRIP OR UPPER OR LOWER"

definition disallowed_float_opts :: u8 where
  "disallowed_float_opts = STRIP OR UPPER OR LOWER"

definition boolean_trues :: "string list" where
  "boolean_trues = [''1'', ''t'', ''true'', ''y'', ''yes'', ''+'']"

definition boolean_falses :: "string list" where
  "boolean_falses = [''0'', ''f'', ''false'', ''n'', ''no'', ''-'', ''nil'']"

definition hasAttr :: "u8 \<Rightarrow> u8 \<Rightarrow> bool" where
  "hasAttr val attrib = (if val AND attrib = 0 then False else True)"

section \<open>The registry (dconfig.go, lines 52 to 56 and 122 to 243)\<close>

text \<open>
  A target is a Go pointer: \<open>Nil\<close>, or the address of a cell of the caller. The five
  package-level maps are the fields of a record; \<^verbatim>\<open>m[k]\<close> on an absent key is the
  zero value, which for a map of pointers is \<open>Nil\<close>.
\<close>

datatype ptr = Nil | Ptr nat

record registry =
  str_map :: "string \<rightharpoonup> ptr"
  int_map :: "string \<rightharpoonup> ptr"
  float_map :: "string \<rightharpoonup> ptr"
  bool_map :: "string \<rightharpoonup> ptr"
  option_flags :: "string \<rightharpoonup> u8"

definition index_ptr :: "(string \<rightharpoonup> ptr) \<Rightarrow> string \<Rightarrow> ptr" where
  "index_ptr m k = (case m k of None \<Rightarrow> Nil | Some p \<Rightarrow> p)"

text \<open>
  The errors of the package are \<^verbatim>\<open>errors.New\<close> of a message; one constructor stands
  for each message, with the text the message quotes. \<open>UnsupportedFlag\<close> carries the type
  tag of the registering function (``unsupported flag for integer option type'' is
  \<open>UnsupportedFlag INT_type\<close>), \<open>DuplicateOption u\<close> is ``"u" option already exists''.
\<close>

datatype error =
    UnsupportedFlag u8
  | DuplicateOption string
  | UnrecognizedOption string
  | NotInteger string
  | NotFloat string
  | NotBoolean string
  | LogicalError string string
  | NoConfigFileFound
  | FileOpenError string

definition Reset :: registry where
  "Reset = \<lparr>str_map = Map.empty, int_map = Map.empty, float_map = Map.empty,
            bool_map = Map.empty, option_flags = Map.empty\<rparr>"

definition OptionType :: "registry \<Rightarrow> string \<Rightarrow> u8" where
  "OptionType reg opt =
     (let uname = ToUpper opt in
      if str_map reg uname \<noteq> None then STRING
      else if int_map reg uname \<noteq> None then INT_type
      else if float_map reg uname \<noteq> None then FLOAT
      else if bool_map reg uname \<noteq> None then BOOL
      else NONE)"

definition optionExists :: "registry \<Rightarrow> string \<Rightarrow> bool" where
  "optionExists reg opt = (OptionType reg opt \<noteq> NONE)"

text \<open>Each registering function returns the Go error (\<open>None\<close> is \<^verbatim>\<open>nil\<close>) and the registry after the call.\<close>

definition AddInt :: "registry \<Rightarrow> ptr \<Rightarrow> string \<Rightarrow> u8 \<Rightarrow> error option \<times> registry" where
  "AddInt reg target name flags =
     (if flags AND disallowed_int_opts \<noteq> 0 then (Some (UnsupportedFlag INT_type), reg)
      else let uname = ToUpper name in
        if optionExists reg uname then (Some (DuplicateOption uname), reg)
        else (None, reg\<lparr>int_map := (int_map reg)(uname \<mapsto> target),
                         option_flags := (option_flags reg)(uname \<mapsto> flags OR INT_type)\<rparr>))"

definition AddString :: "registry \<Rightarrow> ptr \<Rightarrow> string \<Rightarrow> u8 \<Rightarrow> error option \<times> registry" where
  "AddString reg target name flags =
     (if flags AND disallowed_str_opts \<noteq> 0 then (Some (UnsupportedFlag STRING), reg)
      else let uname = ToUpper name in
        if optionExists reg uname then (Some (DuplicateOption uname), reg)
        else (None, reg\<lparr>str_map := (str_map reg)(uname \<mapsto> target),
                         option_flags := (option_flags reg)(uname \<mapsto> flags OR STRING)\<rparr>))"

definition AddFloat :: "registry \<Rightarrow> ptr \<Rightarrow> string \<Rightarrow> u8 \<Rightarrow> error option \<times> registry" where
  "AddFloat reg target name flags =
     (if flags AND disallowed_float_opts \<noteq> 0 then (Some (UnsupportedFlag FLOAT), reg)
      else let uname = ToUpper name in
        if optionExists reg uname then (Some (DuplicateOption uname), reg)
        else (None, reg\<lparr>float_map := (float_map reg)(uname \<mapsto> target),
                         option_flags := (option_flags reg)(uname \<mapsto> flags OR FLOAT)\<rparr>))"

definition AddBool :: "registry \<Rightarrow> ptr \<Rightarrow> string \<Rightarrow> error option \<times> registry" where
  "AddBool reg target name =
     (let uname = ToUpper name in
      if optionExists reg uname then (Some (DuplicateOption uname), reg)
      else (None, reg\<lparr>bool_map := (bool_map reg)(uname \<mapsto> target),
                       option_flags := (option_flags reg)(uname \<mapsto> BOOL)\<rparr>))"


section \<open>Regular expressions (dconfig.go, lines 388 to 396)\<close>

text \<open>
  Package \<^verbatim>\<open>regexp\<close> finds the leftmost match and, among the matches that start
  there, the one a backtracking search finds first. Each of the seven expressions of
  \<^verbatim>\<open>init\<close> is written out as the function that search computes. \<^verbatim>\<open>\s\<close> is
  the class \<^verbatim>\<open>[\t\n\f\r ]\<close> (no vertical tab) and \<^verbatim>\<open>\d\<close> is \<^verbatim>\<open>[0-9]\<close>.
\<close>

definition re_space :: "char \<Rightarrow> bool" where
  "re_space c = (c \<in> set [CHR 0x09, CHR 0x0A, CHR 0x0C, CHR 0x0D, CHR '' ''])"

definition re_digit :: "char \<Rightarrow> bool" where
  "re_digit c = (c \<in> set ''0123456789'')"

definition re_digit_dot :: "char \<Rightarrow> bool" where
  "re_digit_dot c = (re_digit c \<or> c = CHR ''.'')"

definition not_colon_eq :: "char \<Rightarrow> bool" where
  "not_colon_eq c = (c \<noteq> CHR '':'' \<and> c \<noteq> CHR ''='')"

text \<open>\<^verbatim>\<open>comment_re = ^\s*#\<close>, as \<^verbatim>\<open>MatchString\<close>.\<close>

definition comment_re :: "string \<Rightarrow> bool" where
  "comment_re line = (case dropWhile re_space line of [] \<Rightarrow> False | c # _ \<Rightarrow> c = CHR ''#'')"

text \<open>\<^verbatim>\<open>nonblank_re = \S\<close>, as \<^verbatim>\<open>MatchString\<close>.\<close>

definition nonblank_re :: "string \<Rightarrow> bool" where
  "nonblank_re line = list_ex (\<lambda>c. \<not> re_space c) line"

text \<open>
  \<^verbatim>\<open>option_re = ^\s*([^:=]+)=(.*)$\<close>, as \<^verbatim>\<open>FindStringSubmatch\<close>: \<open>None\<close> is
  \<^verbatim>\<open>nil\<close>, \<open>Some (k, v)\<close> is \<^verbatim>\<open>matches[1]\<close> and \<^verbatim>\<open>matches[2]\<close>. The two
  groups before \<^verbatim>\<open>=\<close> must cover the longest prefix \<open>p\<close> free of \<^verbatim>\<open>:\<close> and
  \<^verbatim>\<open>=\<close>, the next byte being \<^verbatim>\<open>=\<close>. The greedy \<^verbatim>\<open>\s*\<close> takes all the
  leading white space of \<open>p\<close>, but gives one byte back when nothing else would be left
  for \<^verbatim>\<open>[^:=]+\<close>. \<^verbatim>\<open>.\<close> does not match a line feed and \<^verbatim>\<open>$\<close> is the end of
  the text.
\<close>

definition option_re :: "string \<Rightarrow> (string \<times> string) option" where
  "option_re line =
     (let p = takeWhile not_colon_eq line;
          ws = takeWhile re_space p;
          k = (if length ws < length p then length ws else length p - 1)
      in case dropWhile not_colon_eq line of
           [] \<Rightarrow> None
         | c # v \<Rightarrow>
             if c = CHR ''='' \<and> p \<noteq> [] \<and> CHR 0x0A \<notin> set v then Some (drop k p, v)
             else None)"

text \<open>
  The four token expressions \<^verbatim>\<open>-?\d+\<close>, \<^verbatim>\<open>\d+\<close>, \<^verbatim>\<open>-?[0-9.]+\<close> and
  \<^verbatim>\<open>[0-9.]+\<close> have one shape: an optional minus sign when \<open>sg\<close>, then one or
  more bytes of a class. \<open>match_token\<close> is the match that starts at the head of the
  text, \<open>FindString\<close> tries each start from the left and returns the empty string when
  there is no match, as \<^verbatim>\<open>Regexp.FindString\<close> does.
\<close>

fun match_token :: "bool \<Rightarrow> (char \<Rightarrow> bool) \<Rightarrow> string \<Rightarrow> string option" where
  "match_token sg cls [] = None"
| "match_token sg cls (c # cs) =
     (if sg \<and> c = CHR ''-'' \<and> takeWhile cls cs \<noteq> [] then Some (c # takeWhile cls cs)
      else if cls c then Some (takeWhile cls (c # cs))
      else None)"

fun FindString :: "bool \<Rightarrow> (char \<Rightarrow> bool) \<Rightarrow> string \<Rightarrow> string" where
  "FindString sg cls [] = []"
| "FindString sg cls (c # cs) =
     (case match_token sg cls (c # cs) of
        Some t \<Rightarrow> t
      | None \<Rightarrow> FindString sg cls cs)"

definition int_token :: "string \<Rightarrow> string" where
  "int_token = FindString True re_digit"

definition uint_token :: "string \<Rightarrow> string" where
  "uint_token = FindString False re_digit"

definition float_token :: "string \<Rightarrow> string" where
  "float_token = FindString True re_digit_dot"

definition ufloat_token :: "string \<Rightarrow> string" where
  "ufloat_token = FindString False re_digit_dot"

section \<open>Numbers\<close>

text \<open>
  \<^verbatim>\<open>strconv.Atoi\<close> on a platform whose \<^verbatim>\<open>int\<close> has 64 bits: an optional sign
  (\<^verbatim>\<open>+\<close> or \<^verbatim>\<open>-\<close>), then one or more decimal digits and nothing else; a value
  outside the range of \<^verbatim>\<open>int\<close> is an error. \<open>None\<close> is a non-nil error.
\<close>

definition digit_val :: "char \<Rightarrow> nat" where
  "digit_val c = (case map_of (zip ''0123456789'' [0, 1, 2, 3, 4, 5, 6, 7, 8, 9]) c of Some d \<Rightarrow> d | None \<Rightarrow> 0)"

definition decimal :: "string \<Rightarrow> nat" where
  "decimal ds = foldl (\<lambda>n c. 10 * n + digit_val c) 0 ds"

definition Atoi :: "string \<Rightarrow> int option" where
  "Atoi s =
     (case s of
        [] \<Rightarrow> None
      | c # cs \<Rightarrow>
          let body = (if c = CHR ''-'' \<or> c = CHR ''+'' then cs else s) in
          if body = [] \<or> \<not> list_all re_digit body then None
          else
            let n = (if c = CHR ''-'' then - int (decimal body) else int (decimal body)) in
            if - (2 ^ 63) \<le> n \<and> n < 2 ^ 63 then Some n else None)"

section \<open>Targets and setOption (dconfig.go, lines 249 to 335)\<close>

text \<open>
  The cells the targets point to belong to the caller: one store for each of the four
  pointer types, indexed by address, so that two targets of one type may share a cell
  and targets of two types never do. \<^verbatim>\<open>float64\<close> values are of a type \<open>'f\<close>
  that is left open, and \<^verbatim>\<open>strconv.ParseFloat(_, 64)\<close> is the parameter \<open>pf\<close>
  (\<open>None\<close> is a non-nil error). Writing through \<open>Nil\<close> panics. What
  \<^verbatim>\<open>verbose\<close> prints on the standard error stream is not part of the state.
\<close>

record 'f heap =
  str_cells :: "nat \<Rightarrow> string"
  int_cells :: "nat \<Rightarrow> int"
  float_cells :: "nat \<Rightarrow> 'f"
  bool_cells :: "nat \<Rightarrow> bool"

datatype 'a exec = Panic | Return 'a

definition store_str :: "ptr \<Rightarrow> string \<Rightarrow> 'f heap \<Rightarrow> (error option \<times> 'f heap) exec" where
  "store_str p v h =
     (case p of Nil \<Rightarrow> Panic | Ptr a \<Rightarrow> Return (None, h\<lparr>str_cells := (str_cells h)(a := v)\<rparr>))"

definition store_int :: "ptr \<Rightarrow> int \<Rightarrow> 'f heap \<Rightarrow> (error option \<times> 'f heap) exec" where
  "store_int p v h =
     (case p of Nil \<Rightarrow> Panic | Ptr a \<Rightarrow> Return (None, h\<lparr>int_cells := (int_cells h)(a := v)\<rparr>))"

definition store_float :: "ptr \<Rightarrow> 'f \<Rightarrow> 'f heap \<Rightarrow> (error option \<times> 'f heap) exec" where
  "store_float p v h =
     (case p of Nil \<Rightarrow> Panic | Ptr a \<Rightarrow> Return (None, h\<lparr>float_cells := (float_cells h)(a := v)\<rparr>))"

definition store_bool :: "ptr \<Rightarrow> bool \<Rightarrow> 'f heap \<Rightarrow> (error option \<times> 'f heap) exec" where
  "store_bool p v h =
     (case p of Nil \<Rightarrow> Panic | Ptr a \<Rightarrow> Return (None, h\<lparr>bool_cells := (bool_cells h)(a := v)\<rparr>))"

text \<open>
  The four blocks of the if-chain of \<^verbatim>\<open>setOption\<close>, each with the pointer its map
  lookup gave.
\<close>

definition set_string :: "u8 \<Rightarrow> ptr \<Rightarrow> string \<Rightarrow> 'f heap \<Rightarrow> (error option \<times> 'f heap) exec" where
  "set_string flags p value h =
     (let v1 = (if hasAttr flags STRIP then TrimSpace value else value);
          v2 = (if hasAttr flags LOWER then ToLower v1
                else if hasAttr flags UPPER then ToUpper v1
                else v1)
      in store_str p v2 h)"

definition set_int :: "u8 \<Rightarrow> ptr \<Rightarrow> string \<Rightarrow> 'f heap \<Rightarrow> (error option \<times> 'f heap) exec" where
  "set_int flags p value h =
     (let tok = (if hasAttr flags UNSIGNED then uint_token value else int_token value)
      in case Atoi tok of
           None \<Rightarrow> Return (Some (NotInteger tok), h)
         | Some iv \<Rightarrow> store_int p iv h)"

definition set_float ::
  "(string \<Rightarrow> 'f option) \<Rightarrow> u8 \<Rightarrow> ptr \<Rightarrow> string \<Rightarrow> 'f heap \<Rightarrow> (error option \<times> 'f heap) exec" where
  "set_float pf flags p value h =
     (let tok = (if hasAttr flags UNSIGNED then ufloat_token value else float_token value)
      in case pf tok of
           None \<Rightarrow> Return (Some (NotFloat tok), h)
         | Some fv \<Rightarrow> store_float p fv h)"

definition set_bool :: "ptr \<Rightarrow> string \<Rightarrow> 'f heap \<Rightarrow> (error option \<times> 'f heap) exec" where
  "set_bool p value h =
     (let v = ToLower (TrimSpace value) in
      if v \<in> set boolean_trues then store_bool p True h
      else if v \<in> set boolean_falses then store_bool p False h
      else Return (Some (NotBoolean v), h))"

definition setOption ::
  "(string \<Rightarrow> 'f option) \<Rightarrow> registry \<Rightarrow> 'f heap \<Rightarrow> string \<Rightarrow> string \<Rightarrow>
   (error option \<times> 'f heap) exec" where
  "setOption pf reg h name value =
     (let uname = ToUpper name in
      case option_flags reg uname of
        None \<Rightarrow> Return (Some (UnrecognizedOption uname), h)
      | Some flags \<Rightarrow>
          if hasAttr flags STRING then set_string flags (index_ptr (str_map reg) uname) value h
          else if hasAttr flags INT_type then set_int flags (index_ptr (int_map reg) uname) value h
          else if hasAttr flags FLOAT then
            set_float pf flags (index_ptr (float_map reg) uname) value h
          else if hasAttr flags BOOL then set_bool (index_ptr (bool_map reg) uname) value h
          else Return (Some (LogicalError uname value), h))"

section \<open>Configure (dconfig.go, lines 344 to 386)\<close>

text \<open>
  The file system, as \<^verbatim>\<open>Configure\<close> sees it: a path is absent (\<^verbatim>\<open>os.Stat\<close>
  fails), present but not to be opened, or readable. A readable file is the list of the
  lines \<^verbatim>\<open>bufio.Scanner\<close> delivers, in order: the text between line feeds, without
  the line feed and without a carriage return before it, up to the end of the file, a
  read error or a line too long for the scanner, where \<^verbatim>\<open>Scan\<close> returns false and
  the loop ends. \<^verbatim>\<open>os.Stat\<close> fails on the empty path.
\<close>

datatype fnode = Absent | Unopenable | Readable "string list"

type_synonym filesystem = "string \<Rightarrow> fnode"

definition os_Stat :: "filesystem \<Rightarrow> string \<Rightarrow> bool" where
  "os_Stat fs fname = (fname \<noteq> [] \<and> fs fname \<noteq> Absent)"

definition os_Open :: "filesystem \<Rightarrow> string \<Rightarrow> string list option" where
  "os_Open fs fname = (case fs fname of Readable ls \<Rightarrow> Some ls | _ \<Rightarrow> None)"

text \<open>The first loop of \<^verbatim>\<open>Configure\<close>: \<^verbatim>\<open>cfg_file\<close> stays empty when no path is found.\<close>

fun find_cfg_file :: "filesystem \<Rightarrow> string list \<Rightarrow> string" where
  "find_cfg_file fs [] = []"
| "find_cfg_file fs (fname # files) =
     (if os_Stat fs fname then fname else find_cfg_file fs files)"

text \<open>The tests on one line, in the order of the loop body (lines 369 to 382).\<close>

datatype line_class = Comment | Blank | Malformed | Entry string string

definition classify :: "string \<Rightarrow> line_class" where
  "classify line =
     (if comment_re line then Comment
      else if \<not> nonblank_re line then Blank
      else case option_re line of
             None \<Rightarrow> Malformed
           | Some (k, v) \<Rightarrow> Entry k v)"

text \<open>The scanning loop: the value \<^verbatim>\<open>setOption\<close> returns is dropped, a panic is not.\<close>

fun scan_lines ::
  "(string \<Rightarrow> 'f option) \<Rightarrow> registry \<Rightarrow> 'f heap \<Rightarrow> string list \<Rightarrow> 'f heap exec" where
  "scan_lines pf reg h [] = Return h"
| "scan_lines pf reg h (line # rest) =
     (case classify line of
        Entry k v \<Rightarrow>
          (case setOption pf reg h k v of
             Panic \<Rightarrow> Panic
           | Return (e, h') \<Rightarrow> scan_lines pf reg h' rest)
      | _ \<Rightarrow> scan_lines pf reg h rest)"

definition Configure ::
  "(string \<Rightarrow> 'f option) \<Rightarrow> filesystem \<Rightarrow> registry \<Rightarrow> 'f heap \<Rightarrow> string list \<Rightarrow>
   (error option \<times> 'f heap) exec" where
  "Configure pf fs reg h files =
     (let cfg_file = find_cfg_file fs files in
      if cfg_file = [] then Return (Some NoConfigFileFound, h)
      else case os_Open fs cfg_file of
             None \<Rightarrow> Return (Some (FileOpenError cfg_file), h)
           | Some ls \<Rightarrow>
               (case scan_lines pf reg h ls of
                  Panic \<Rightarrow> Panic
                | Return h' \<Rightarrow> Return (None, h')))"

section \<open>Callers\<close>

text \<open>
  A caller reaches a registry by a sequence of calls of the exported functions, from the
  registry \<^verbatim>\<open>init\<close> leaves (that of \<open>Reset\<close>). The error a call returns is not kept.
\<close>

datatype call =
    CallReset
  | CallAddString ptr string u8
  | CallAddInt ptr string u8
  | CallAddFloat ptr string u8
  | CallAddBool ptr string

fun do_call :: "registry \<Rightarrow> call \<Rightarrow> registry" where
  "do_call reg CallReset = Reset"
| "do_call reg (CallAddString t n f) = snd (AddString reg t n f)"
| "do_call reg (CallAddInt t n f) = snd (AddInt reg t n f)"
| "do_call reg (CallAddFloat t n f) = snd (AddFloat reg t n f)"
| "do_call reg (CallAddBool t n) = snd (AddBool reg t n)"

definition run_calls :: "call list \<Rightarrow> registry" where
  "run_calls cs = foldl do_call Reset cs"

section \<open>The invariant of the registry\<close>

text \<open>
  At every canonical name, a registry the exported functions can reach holds either no
  declaration at all, or one target in exactly one of the four maps together with flags
  that are related to the tag of that map by \<open>P\<close>. For every sequence of calls the
  flags hold the bit of the tag (and are \<open>BOOL\<close> itself for a Boolean option): this
  is \<open>has_tag\<close>. When no call passed a tag bit as a flag, the tag bits of the flags are
  exactly the tag: this is \<open>exact_tag\<close>.
\<close>

definition decl_at :: "(u8 \<Rightarrow> u8 \<Rightarrow> bool) \<Rightarrow> registry \<Rightarrow> string \<Rightarrow> bool" where
  "decl_at P reg u \<longleftrightarrow>
     (str_map reg u = None \<and> int_map reg u = None \<and> float_map reg u = None \<and>
      bool_map reg u = None \<and> option_flags reg u = None) \<or>
     (\<exists>p f. str_map reg u = Some p \<and> option_flags reg u = Some f \<and> P STRING f \<and>
        int_map reg u = None \<and> float_map reg u = None \<and> bool_map reg u = None) \<or>
     (\<exists>p f. int_map reg u = Some p \<and> option_flags reg u = Some f \<and> P INT_type f \<and>
        str_map reg u = None \<and> float_map reg u = None \<and> bool_map reg u = None) \<or>
     (\<exists>p f. float_map reg u = Some p \<and> option_flags reg u = Some f \<and> P FLOAT f \<and>
        str_map reg u = None \<and> int_map reg u = None \<and> bool_map reg u = None) \<or>
     (\<exists>p f. bool_map reg u = Some p \<and> option_flags reg u = Some f \<and> P BOOL f \<and>
        str_map reg u = None \<and> int_map reg u = None \<and> float_map reg u = None)"

definition registry_inv :: "(u8 \<Rightarrow> u8 \<Rightarrow> bool) \<Rightarrow> registry \<Rightarrow> bool" where
  "registry_inv P reg \<longleftrightarrow> (\<forall>u. decl_at P reg u)"

definition has_tag :: "u8 \<Rightarrow> u8 \<Rightarrow> bool" where
  "has_tag t f = (if t = BOOL then f = BOOL else hasAttr f t)"

definition exact_tag :: "u8 \<Rightarrow> u8 \<Rightarrow> bool" where
  "exact_tag t f = (f AND all_types = t)"

text \<open>
  The flags of a call hold none of the four tag bits: they are a combination of
  \<open>NONE\<close>, \<open>STRIP\<close>, \<open>UPPER\<close>, \<open>LOWER\<close> and \<open>UNSIGNED\<close>.
\<close>

definition flag_bits_only :: "u8 \<Rightarrow> bool" where
  "flag_bits_only f = (f AND all_types = 0)"

fun clean_call :: "call \<Rightarrow> bool" where
  "clean_call CallReset = True"
| "clean_call (CallAddString t n f) = flag_bits_only f"
| "clean_call (CallAddInt t n f) = flag_bits_only f"
| "clean_call (CallAddFloat t n f) = flag_bits_only f"
| "clean_call (CallAddBool t n) = True"

section \<open>A heap for the examples\<close>

text \<open>Every cell holds the zero value of its type; \<^verbatim>\<open>float64\<close> is not needed and is \<open>unit\<close>.\<close>

definition heap0 :: "unit heap" where
  "heap0 = \<lparr>str_cells = (\<lambda>_. []), int_cells = (\<lambda>_. 0), float_cells = (\<lambda>_. ()),
            bool_cells = (\<lambda>_. False)\<rparr>"

text \<open>A file system for the examples: one readable file, one that cannot be opened.\<close>

definition fs0 :: filesystem where
  "fs0 = (\<lambda>_. Absent)(''b.conf'' := Readable [''# settings'', ''x=7''], ''c.conf'' := Unopenable)"

section \<open>The effect of a scan on the heap\<close>

text \<open>
  What \<open>setOption\<close> does to the heap does not depend on the heap: it panics, or it
  returns after overwriting some cells with values fixed by the registry and the line. A
  \<open>delta\<close> holds the cells that are overwritten and their new values.
\<close>

record 'f delta =
  d_str :: "nat \<rightharpoonup> string"
  d_int :: "nat \<rightharpoonup> int"
  d_float :: "nat \<rightharpoonup> 'f"
  d_bool :: "nat \<rightharpoonup> bool"

definition overlay :: "'f delta \<Rightarrow> 'f heap \<Rightarrow> 'f heap" where
  "overlay d h =
     \<lparr>str_cells = (\<lambda>a. case d_str d a of Some v \<Rightarrow> v | None \<Rightarrow> str_cells h a),
      int_cells = (\<lambda>a. case d_int d a of Some v \<Rightarrow> v | None \<Rightarrow> int_cells h a),
      float_cells = (\<lambda>a. case d_float d a of Some v \<Rightarrow> v | None \<Rightarrow> float_cells h a),
      bool_cells = (\<lambda>a. case d_bool d a of Some v \<Rightarrow> v | None \<Rightarrow> bool_cells h a)\<rparr>"

definition no_delta :: "'f delta" where
  "no_delta = \<lparr>d_str = Map.empty, d_int = Map.empty, d_float = Map.empty, d_bool = Map.empty\<rparr>"

definition join :: "'f delta \<Rightarrow> 'f delta \<Rightarrow> 'f delta" where
  "join d1 d2 =
     \<lparr>d_str = d_str d1 ++ d_str d2, d_int = d_int d1 ++ d_int d2,
      d_float = d_float d1 ++ d_float d2, d_bool = d_bool d1 ++ d_bool d2\<rparr>"

definition uniform :: "('f heap \<Rightarrow> (error option \<times> 'f heap) exec) \<Rightarrow> bool" where
  "uniform step \<longleftrightarrow>
     (\<forall>h. step h = Panic) \<or> (\<exists>e d. \<forall>h. step h = Return (e, overlay d h))"


text \<open>A call names a target that is not nil.\<close>

fun has_target :: "call \<Rightarrow> bool" where
  "has_target CallReset = True"
| "has_target (CallAddString t n f) = (t \<noteq> Nil)"
| "has_target (CallAddInt t n f) = (t \<noteq> Nil)"
| "has_target (CallAddFloat t n f) = (t \<noteq> Nil)"
| "has_target (CallAddBool t n) = (t \<noteq> Nil)"

definition targets_ok :: "registry \<Rightarrow> bool" where
  "targets_ok reg \<longleftrightarrow>
     (\<forall>u. str_map reg u \<noteq> Some Nil \<and> int_map reg u \<noteq> Some Nil \<and>
          float_map reg u \<noteq> Some Nil \<and> bool_map reg u \<noteq> Some Nil)"

text \<open>
  A line that the scan passes over: a comment, a blank or a malformed line, or an entry
  for which \<open>setOption\<close> returns an error.
\<close>

definition skipped :: "(string \<Rightarrow> 'f option) \<Rightarrow> registry \<Rightarrow> string \<Rightarrow> bool" where
  "skipped pf reg line \<longleftrightarrow>
     classify line = Comment \<or> classify line = Blank \<or> classify line = Malformed \<or>
     (\<exists>k v. classify line = Entry k v \<and>
        (option_flags reg (ToUpper k) = None \<or>
         (\<exists>h e h1. setOption pf reg h k v = Return (Some e, h1))))"

text \<open>A heap whose integer cells hold 4, and a file system with the one file \<^verbatim>\<open>x.conf\<close>.\<close>

definition heap4 :: "unit heap" where
  "heap4 = heap0\<lparr>int_cells := (\<lambda>_. 4)\<rparr>"

definition one_file :: "string list \<Rightarrow> filesystem" where
  "one_file ls = (\<lambda>_. Absent)(''x.conf'' := Readable ls)"

section \<open>The classification of a line, in the words of the specification\<close>

text \<open>
  The specification's reading of the three tests, to be compared with \<open>classify\<close>: a
  comment is optional white space then \<^verbatim>\<open>#\<close>; a blank line has no character that is
  not white space; otherwise the key is the longest prefix without \<^verbatim>\<open>:\<close> and
  \<^verbatim>\<open>=\<close> (not empty), it is followed by \<^verbatim>\<open>=\<close>, and the value is the rest of the
  line.
\<close>

definition spec_classify :: "string \<Rightarrow> line_class" where
  "spec_classify line =
     (if (case dropWhile re_space line of [] \<Rightarrow> False | c # _ \<Rightarrow> c = CHR ''#'') then Comment
      else if list_all re_space line then Blank
      else let key = takeWhile not_colon_eq line in
        case dropWhile not_colon_eq line of
          [] \<Rightarrow> Malformed
        | c # v \<Rightarrow> if c = CHR ''='' \<and> key \<noteq> [] then Entry key v else Malformed)"

section \<open>The integer token, in the words of the specification\<close>

text \<open>
  The token pattern: one or more digits, after an optional leading minus sign when the
  option is signed (\<open>sg\<close>). \<open>first_token sg s t\<close> says that \<open>t\<close> is the first
  substring of \<open>s\<close> of that shape: no substring of the shape starts further left, and
  none that starts at the same place is longer.
\<close>

definition token_shape :: "bool \<Rightarrow> string \<Rightarrow> bool" where
  "token_shape sg t =
     (case t of
        [] \<Rightarrow> False
      | c # cs \<Rightarrow> list_all re_digit t \<or> (sg \<and> c = CHR ''-'' \<and> cs \<noteq> [] \<and> list_all re_digit cs))"

definition has_token :: "bool \<Rightarrow> string \<Rightarrow> bool" where
  "has_token sg s \<longleftrightarrow> (\<exists>pre t post. s = pre @ t @ post \<and> token_shape sg t)"

definition first_token :: "bool \<Rightarrow> string \<Rightarrow> string \<Rightarrow> bool" where
  "first_token sg s t \<longleftrightarrow>
     (\<exists>pre post. s = pre @ t @ post \<and> token_shape sg t \<and>
        (\<forall>pre' t' post'. s = pre' @ t' @ post' \<and> token_shape sg t' \<longrightarrow>
           length pre < length pre' \<or> (length pre = length pre' \<and> length t' \<le> length t)))"

section \<open>Basic facts\<close>

lemmas flag_defs =
  STRIP_def UPPER_def LOWER_def UNSIGNED_def NONE_def BOOL_def STRING_def INT_type_def FLOAT_def
  all_types_def disallowed_str_opts_def disallowed_int_opts_def disallowed_float_opts_def

lemmas str_defs =
  ToUpper_def ToLower_def upper_byte_def lower_byte_def ascii_lower_def ascii_upper_def
  TrimSpace_def unicode_IsSpace_def

lemmas re_defs =
  re_space_def re_digit_def re_digit_dot_def not_colon_eq_def comment_re_def nonblank_re_def
  option_re_def int_token_def uint_token_def float_token_def ufloat_token_def

lemmas add_defs =
  AddInt_def AddString_def AddFloat_def AddBool_def optionExists_def OptionType_def Reset_def

lemmas set_defs =
  setOption_def set_string_def set_int_def set_float_def set_bool_def
  store_str_def store_int_def store_float_def store_bool_def index_ptr_def hasAttr_def
  boolean_trues_def boolean_falses_def Atoi_def digit_val_def decimal_def

lemma upper_byte_idem: "upper_byte (upper_byte c) = upper_byte c"
  by (auto simp: upper_byte_def ascii_lower_def ascii_upper_def split: option.splits if_splits)

lemma ToUpper_idem [simp]: "ToUpper (ToUpper s) = ToUpper s"
  by (simp add: ToUpper_def upper_byte_idem)

lemma hasAttr_OR_self: "t \<noteq> 0 \<Longrightarrow> hasAttr (f OR t) t"
  by (simp add: hasAttr_def word_ao_absorbs)

lemma tags_nonzero: "STRING \<noteq> 0" "INT_type \<noteq> 0" "FLOAT \<noteq> 0" "BOOL \<noteq> 0"
  by (simp_all add: flag_defs)

lemma OptionType_NONE_iff:
  "OptionType reg opt = NONE \<longleftrightarrow>
     str_map reg (ToUpper opt) = None \<and> int_map reg (ToUpper opt) = None \<and>
     float_map reg (ToUpper opt) = None \<and> bool_map reg (ToUpper opt) = None"
  by (simp add: OptionType_def Let_def flag_defs)

lemma optionExists_iff:
  "optionExists reg (ToUpper name) \<longleftrightarrow>
     str_map reg (ToUpper name) \<noteq> None \<or> int_map reg (ToUpper name) \<noteq> None \<or>
     float_map reg (ToUpper name) \<noteq> None \<or> bool_map reg (ToUpper name) \<noteq> None"
  by (simp add: optionExists_def OptionType_NONE_iff)

section \<open>The invariant is kept by every call\<close>

lemma registry_inv_Reset: "registry_inv P Reset"
  by (simp add: registry_inv_def decl_at_def Reset_def)

lemma registry_inv_upd:
  assumes inv: "registry_inv P reg"
    and new: "decl_at P reg' k"
    and same: "\<And>u. u \<noteq> k \<Longrightarrow>
        str_map reg' u = str_map reg u \<and> int_map reg' u = int_map reg u \<and>
        float_map reg' u = float_map reg u \<and> bool_map reg' u = bool_map reg u \<and>
        option_flags reg' u = option_flags reg u"
  shows "registry_inv P reg'"
  unfolding registry_inv_def
proof
  fix u
  show "decl_at P reg' u"
  proof (cases "u = k")
    case True
    then show ?thesis using new by simp
  next
    case False
    from same[OF False] have eqs:
      "str_map reg' u = str_map reg u" "int_map reg' u = int_map reg u"
      "float_map reg' u = float_map reg u" "bool_map reg' u = bool_map reg u"
      "option_flags reg' u = option_flags reg u"
      by simp_all
    have "decl_at P reg u" using inv by (simp add: registry_inv_def)
    then show ?thesis unfolding decl_at_def eqs .
  qed
qed

lemma registry_inv_AddString:
  assumes inv: "registry_inv P reg" and tag: "P STRING (f OR STRING)"
  shows "registry_inv P (snd (AddString reg t n f))"
proof (cases "fst (AddString reg t n f)")
  case (Some e)
  then have "snd (AddString reg t n f) = reg"
    by (simp add: AddString_def Let_def split: if_splits)
  then show ?thesis using inv by simp
next
  case None
  then have ok: "\<not> optionExists reg (ToUpper n)"
    and eq: "snd (AddString reg t n f) =
       reg\<lparr>str_map := (str_map reg)(ToUpper n \<mapsto> t),
           option_flags := (option_flags reg)(ToUpper n \<mapsto> f OR STRING)\<rparr>"
    by (simp_all add: AddString_def Let_def split: if_splits)
  show ?thesis
    unfolding eq
    by (rule registry_inv_upd[OF inv, where k = "ToUpper n"])
       (use ok tag in \<open>simp_all add: optionExists_iff decl_at_def\<close>)
qed

lemma registry_inv_AddInt:
  assumes inv: "registry_inv P reg" and tag: "P INT_type (f OR INT_type)"
  shows "registry_inv P (snd (AddInt reg t n f))"
proof (cases "fst (AddInt reg t n f)")
  case (Some e)
  then have "snd (AddInt reg t n f) = reg"
    by (simp add: AddInt_def Let_def split: if_splits)
  then show ?thesis using inv by simp
next
  case None
  then have ok: "\<not> optionExists reg (ToUpper n)"
    and eq: "snd (AddInt reg t n f) =
       reg\<lparr>int_map := (int_map reg)(ToUpper n \<mapsto> t),
           option_flags := (option_flags reg)(ToUpper n \<mapsto> f OR INT_type)\<rparr>"
    by (simp_all add: AddInt_def Let_def split: if_splits)
  show ?thesis
    unfolding eq
    by (rule registry_inv_upd[OF inv, where k = "ToUpper n"])
       (use ok tag in \<open>simp_all add: optionExists_iff decl_at_def\<close>)
qed

lemma registry_inv_AddFloat:
  assumes inv: "registry_inv P reg" and tag: "P FLOAT (f OR FLOAT)"
  shows "registry_inv P (snd (AddFloat reg t n f))"
proof (cases "fst (AddFloat reg t n f)")
  case (Some e)
  then have "snd (AddFloat reg t n f) = reg"
    by (simp add: AddFloat_def Let_def split: if_splits)
  then show ?thesis using inv by simp
next
  case None
  then have ok: "\<not> optionExists reg (ToUpper n)"
    and eq: "snd (AddFloat reg t n f) =
       reg\<lparr>float_map := (float_map reg)(ToUpper n \<mapsto> t),
           option_flags := (option_flags reg)(ToUpper n \<mapsto> f OR FLOAT)\<rparr>"
    by (simp_all add: AddFloat_def Let_def split: if_splits)
  show ?thesis
    unfolding eq
    by (rule registry_inv_upd[OF inv, where k = "ToUpper n"])
       (use ok tag in \<open>simp_all add: optionExists_iff decl_at_def\<close>)
qed

lemma registry_inv_AddBool:
  assumes inv: "registry_inv P reg" and tag: "P BOOL BOOL"
  shows "registry_inv P (snd (AddBool reg t n))"
proof (cases "fst (AddBool reg t n)")
  case (Some e)
  then have "snd (AddBool reg t n) = reg"
    by (simp add: AddBool_def Let_def split: if_splits)
  then show ?thesis using inv by simp
next
  case None
  then have ok: "\<not> optionExists reg (ToUpper n)"
    and eq: "snd (AddBool reg t n) =
       reg\<lparr>bool_map := (bool_map reg)(ToUpper n \<mapsto> t),
           option_flags := (option_flags reg)(ToUpper n \<mapsto> BOOL)\<rparr>"
    by (simp_all add: AddBool_def Let_def split: if_splits)
  show ?thesis
    unfolding eq
    by (rule registry_inv_upd[OF inv, where k = "ToUpper n"])
       (use ok tag in \<open>simp_all add: optionExists_iff decl_at_def\<close>)
qed

lemma has_tag_OR:
  "has_tag STRING (f OR STRING)" "has_tag INT_type (f OR INT_type)"
  "has_tag FLOAT (f OR FLOAT)" "has_tag BOOL BOOL"
  by (simp_all add: has_tag_def hasAttr_OR_self tags_nonzero) (simp_all add: flag_defs)

lemma and_tags_split:
  fixes f t :: u8
  shows "(f OR t) AND all_types = (f AND all_types) OR (t AND all_types)"
  by (simp add: bit.conj_disj_distrib2)

lemma exact_tag_OR:
  "flag_bits_only f \<Longrightarrow> exact_tag STRING (f OR STRING)"
  "flag_bits_only f \<Longrightarrow> exact_tag INT_type (f OR INT_type)"
  "flag_bits_only f \<Longrightarrow> exact_tag FLOAT (f OR FLOAT)"
  "exact_tag BOOL BOOL"
  by (simp_all add: exact_tag_def flag_bits_only_def and_tags_split) (simp_all add: flag_defs)

lemma has_tag_do_call: "registry_inv has_tag reg \<Longrightarrow> registry_inv has_tag (do_call reg c)"
  by (cases c)
     (simp_all add: registry_inv_Reset registry_inv_AddString registry_inv_AddInt
        registry_inv_AddFloat registry_inv_AddBool has_tag_OR)

lemma exact_tag_do_call:
  "registry_inv exact_tag reg \<Longrightarrow> clean_call c \<Longrightarrow> registry_inv exact_tag (do_call reg c)"
  by (cases c)
     (simp_all add: registry_inv_Reset registry_inv_AddString registry_inv_AddInt
        registry_inv_AddFloat registry_inv_AddBool exact_tag_OR)

lemma has_tag_foldl: "registry_inv has_tag reg \<Longrightarrow> registry_inv has_tag (foldl do_call reg cs)"
  by (induction cs arbitrary: reg) (simp_all add: has_tag_do_call)

lemma exact_tag_foldl:
  "registry_inv exact_tag reg \<Longrightarrow> list_all clean_call cs \<Longrightarrow>
   registry_inv exact_tag (foldl do_call reg cs)"
  by (induction cs arbitrary: reg) (simp_all add: exact_tag_do_call)

lemma has_tag_run_calls: "registry_inv has_tag (run_calls cs)"
  by (simp add: run_calls_def has_tag_foldl registry_inv_Reset)

lemma exact_tag_run_calls: "list_all clean_call cs \<Longrightarrow> registry_inv exact_tag (run_calls cs)"
  by (simp add: run_calls_def exact_tag_foldl registry_inv_Reset)

section \<open>Registration and the flag table\<close>

text \<open>
  The bits of the three masks are rejected, and the registry is left as it was.
\<close>

lemma flags_of_mask_rejected:
  "flags AND disallowed_str_opts \<noteq> 0 \<Longrightarrow>
     AddString reg t name flags = (Some (UnsupportedFlag STRING), reg)"
  "flags AND disallowed_int_opts \<noteq> 0 \<Longrightarrow>
     AddInt reg t name flags = (Some (UnsupportedFlag INT_type), reg)"
  "flags AND disallowed_float_opts \<noteq> 0 \<Longrightarrow>
     AddFloat reg t name flags = (Some (UnsupportedFlag FLOAT), reg)"
  by (simp_all add: AddString_def AddInt_def AddFloat_def)

text \<open>
  C1. A registration whose flags hold a bit that is not valid for the type of the option
  is to return the unsupported-flag error and leave the registry as it was. The masks
  \<open>disallowed_int_opts\<close>, \<open>disallowed_str_opts\<close> and \<open>disallowed_float_opts\<close> do
  not hold the four type tags, so \<^verbatim>\<open>AddInt(&n, "a", STRING)\<close> on the fresh registry
  returns no error, the option is declared (\<open>OptionType\<close> answers \<open>INT_type\<close>), its
  stored flags hold both tags, and \<open>setOption\<close> then takes the string block, finds no
  entry in \<open>str_map\<close> and writes through a nil pointer.
\<close>

theorem AddInt_accepts_type_tag:
  "fst (AddInt Reset (Ptr 0) ''a'' STRING) = None \<and>
   OptionType (snd (AddInt Reset (Ptr 0) ''a'' STRING)) ''a'' = INT_type \<and>
   option_flags (snd (AddInt Reset (Ptr 0) ''a'' STRING)) ''A'' = Some (STRING OR INT_type) \<and>
   snd (AddInt Reset (Ptr 0) ''a'' STRING) \<noteq> Reset \<and>
   setOption pf (snd (AddInt Reset (Ptr 0) ''a'' STRING)) h ''a'' ''5'' = Panic"
  by (simp add: add_defs set_defs flag_defs str_defs Let_def)

section \<open>What a declaration gives setOption\<close>

lemmas call_defs = run_calls_def add_defs flag_defs str_defs Let_def

lemma decl_at_str:
  "decl_at P reg u \<Longrightarrow> str_map reg u = Some p \<Longrightarrow>
   (\<exists>f. option_flags reg u = Some f \<and> P STRING f) \<and>
   int_map reg u = None \<and> float_map reg u = None \<and> bool_map reg u = None"
  by (auto simp: decl_at_def)

lemma decl_at_int:
  "decl_at P reg u \<Longrightarrow> int_map reg u = Some p \<Longrightarrow>
   (\<exists>f. option_flags reg u = Some f \<and> P INT_type f) \<and>
   str_map reg u = None \<and> float_map reg u = None \<and> bool_map reg u = None"
  by (auto simp: decl_at_def)

lemma decl_at_float:
  "decl_at P reg u \<Longrightarrow> float_map reg u = Some p \<Longrightarrow>
   (\<exists>f. option_flags reg u = Some f \<and> P FLOAT f) \<and>
   str_map reg u = None \<and> int_map reg u = None \<and> bool_map reg u = None"
  by (auto simp: decl_at_def)

lemma decl_at_bool:
  "decl_at P reg u \<Longrightarrow> bool_map reg u = Some p \<Longrightarrow>
   (\<exists>f. option_flags reg u = Some f \<and> P BOOL f) \<and>
   str_map reg u = None \<and> int_map reg u = None \<and> float_map reg u = None"
  by (auto simp: decl_at_def)

lemma decl_at_flags:
  "decl_at P reg u \<Longrightarrow> option_flags reg u = Some f \<Longrightarrow>
   (\<exists>p. str_map reg u = Some p \<and> P STRING f \<and>
        int_map reg u = None \<and> float_map reg u = None \<and> bool_map reg u = None) \<or>
   (\<exists>p. int_map reg u = Some p \<and> P INT_type f \<and>
        str_map reg u = None \<and> float_map reg u = None \<and> bool_map reg u = None) \<or>
   (\<exists>p. float_map reg u = Some p \<and> P FLOAT f \<and>
        str_map reg u = None \<and> int_map reg u = None \<and> bool_map reg u = None) \<or>
   (\<exists>p. bool_map reg u = Some p \<and> P BOOL f \<and>
        str_map reg u = None \<and> int_map reg u = None \<and> float_map reg u = None)"
  by (auto simp: decl_at_def)

lemma run_calls_decl_at: "decl_at has_tag (run_calls cs) u"
  using has_tag_run_calls[of cs] by (simp add: registry_inv_def)

lemma setOption_string:
  "option_flags reg (ToUpper name) = Some flags \<Longrightarrow> hasAttr flags STRING \<Longrightarrow>
   str_map reg (ToUpper name) = Some p \<Longrightarrow>
   setOption pf reg h name value = set_string flags p value h"
  by (simp add: setOption_def index_ptr_def)

lemma setOption_bool:
  "option_flags reg (ToUpper name) = Some BOOL \<Longrightarrow> bool_map reg (ToUpper name) = Some p \<Longrightarrow>
   setOption pf reg h name value = set_bool p value h"
  by (simp add: setOption_def index_ptr_def hasAttr_def flag_defs)

section \<open>Coercion of String and Boolean options\<close>

text \<open>
  C5. For an option declared as a String (some sequence of calls has left a target for
  its canonical name in \<open>str_map\<close>), whatever its stored flags, \<open>setOption\<close> trims the
  value when \<open>STRIP\<close> is set, then folds it to lower case when \<open>LOWER\<close> is set, else
  to upper case when \<open>UPPER\<close> is set, and writes the result to the target without any
  further test. With both \<open>UPPER\<close> and \<open>LOWER\<close> set, \<^verbatim>\<open>MixedCase\<close> is stored as
  \<^verbatim>\<open>mixedcase\<close>.
\<close>

theorem string_option_coercion:
  assumes reach: "reg = run_calls cs"
    and target: "str_map reg (ToUpper name) = Some (Ptr a)"
    and flags: "option_flags reg (ToUpper name) = Some flags"
  shows "setOption pf reg h name value =
           Return (None, h\<lparr>str_cells := (str_cells h)
             (a := (let v = (if hasAttr flags STRIP then TrimSpace value else value)
                    in if hasAttr flags LOWER then ToLower v
                       else if hasAttr flags UPPER then ToUpper v
                       else v))\<rparr>) \<and>
         (hasAttr flags UPPER \<and> hasAttr flags LOWER \<longrightarrow>
            setOption pf reg h name ''MixedCase'' =
              Return (None, h\<lparr>str_cells := (str_cells h)(a := ''mixedcase'')\<rparr>))"
proof -
  from run_calls_decl_at[of cs "ToUpper name"] target flags reach
  have "hasAttr flags STRING"
    by (auto dest!: decl_at_str simp: has_tag_def flag_defs)
  then have eq: "\<And>v. setOption pf reg h name v = set_string flags (Ptr a) v h"
    using setOption_string[OF flags _ target] by simp
  have 1: "set_string flags (Ptr a) value h =
           Return (None, h\<lparr>str_cells := (str_cells h)
             (a := (let v = (if hasAttr flags STRIP then TrimSpace value else value)
                    in if hasAttr flags LOWER then ToLower v
                       else if hasAttr flags UPPER then ToUpper v
                       else v))\<rparr>)"
    by (simp add: set_string_def store_str_def Let_def)
  have 2: "hasAttr flags LOWER \<Longrightarrow> set_string flags (Ptr a) ''MixedCase'' h =
              Return (None, h\<lparr>str_cells := (str_cells h)(a := ''mixedcase'')\<rparr>)"
    by (simp add: set_string_def store_str_def Let_def str_defs)
  show ?thesis using 1 2 by (simp add: eq)
qed

theorem string_option_coercion_witness:
  "str_map (run_calls [CallAddString (Ptr 0) ''greeting'' (UPPER OR LOWER)]) (ToUpper ''Greeting'')
     = Some (Ptr 0) \<and>
   option_flags (run_calls [CallAddString (Ptr 0) ''greeting'' (UPPER OR LOWER)])
     (ToUpper ''Greeting'') = Some 134 \<and>
   hasAttr 134 UPPER \<and> hasAttr 134 LOWER \<and>
   setOption (\<lambda>_. None) (run_calls [CallAddString (Ptr 0) ''greeting'' (UPPER OR LOWER)]) heap0
       ''Greeting'' ''MixedCase'' =
     Return (None, heap0\<lparr>str_cells := (str_cells heap0)(0 := ''mixedcase'')\<rparr>)"
proof -
  let ?reg = "run_calls [CallAddString (Ptr 0) ''greeting'' (UPPER OR LOWER)]"
  have t: "str_map ?reg (ToUpper ''Greeting'') = Some (Ptr 0)"
    by (simp add: call_defs)
  have f: "option_flags ?reg (ToUpper ''Greeting'') = Some 134"
    by (simp add: call_defs)
  have b: "hasAttr 134 UPPER" "hasAttr 134 LOWER"
    by (simp_all add: hasAttr_def flag_defs)
  from string_option_coercion[OF refl t f, of "\<lambda>_. None" heap0 "''MixedCase''"] b
  have "setOption (\<lambda>_. None) ?reg heap0 ''Greeting'' ''MixedCase'' =
     Return (None, heap0\<lparr>str_cells := (str_cells heap0)(0 := ''mixedcase'')\<rparr>)"
    by blast
  with t f b show ?thesis by simp
qed

text \<open>
  C4. For an option declared as a Boolean, \<open>setOption\<close> trims the value and folds it to
  lower case; it writes true exactly for the six literals 1, t, true, y, yes, +, false
  exactly for the seven literals 0, f, false, n, no, -, nil, and for any other value
  returns an error and leaves the heap as it was. The eight examples of the claim follow.
\<close>

theorem bool_option_coercion:
  assumes reach: "reg = run_calls cs"
    and target: "bool_map reg (ToUpper name) = Some (Ptr a)"
  shows "setOption pf reg h name value =
           (let v = ToLower (TrimSpace value) in
            if v \<in> {''1'', ''t'', ''true'', ''y'', ''yes'', ''+''}
            then Return (None, h\<lparr>bool_cells := (bool_cells h)(a := True)\<rparr>)
            else if v \<in> {''0'', ''f'', ''false'', ''n'', ''no'', ''-'', ''nil''}
            then Return (None, h\<lparr>bool_cells := (bool_cells h)(a := False)\<rparr>)
            else Return (Some (NotBoolean v), h)) \<and>
         setOption pf reg h name ''YES'' = Return (None, h\<lparr>bool_cells := (bool_cells h)(a := True)\<rparr>) \<and>
         setOption pf reg h name '' true '' = Return (None, h\<lparr>bool_cells := (bool_cells h)(a := True)\<rparr>) \<and>
         setOption pf reg h name ''1'' = Return (None, h\<lparr>bool_cells := (bool_cells h)(a := True)\<rparr>) \<and>
         setOption pf reg h name ''+'' = Return (None, h\<lparr>bool_cells := (bool_cells h)(a := True)\<rparr>) \<and>
         setOption pf reg h name ''no'' = Return (None, h\<lparr>bool_cells := (bool_cells h)(a := False)\<rparr>) \<and>
         setOption pf reg h name ''0'' = Return (None, h\<lparr>bool_cells := (bool_cells h)(a := False)\<rparr>) \<and>
         setOption pf reg h name ''nil'' = Return (None, h\<lparr>bool_cells := (bool_cells h)(a := False)\<rparr>) \<and>
         setOption pf reg h name ''maybe'' = Return (Some (NotBoolean ''maybe''), h)"
proof -
  from run_calls_decl_at[of cs "ToUpper name"] target reach
  have "option_flags reg (ToUpper name) = Some BOOL"
    by (auto dest!: decl_at_bool simp: has_tag_def)
  then have eq: "\<And>v. setOption pf reg h name v = set_bool (Ptr a) v h"
    using setOption_bool[OF _ target] by simp
  have 1: "set_bool (Ptr a) value h =
           (let v = ToLower (TrimSpace value) in
            if v \<in> {''1'', ''t'', ''true'', ''y'', ''yes'', ''+''}
            then Return (None, h\<lparr>bool_cells := (bool_cells h)(a := True)\<rparr>)
            else if v \<in> {''0'', ''f'', ''false'', ''n'', ''no'', ''-'', ''nil''}
            then Return (None, h\<lparr>bool_cells := (bool_cells h)(a := False)\<rparr>)
            else Return (Some (NotBoolean v), h))"
    by (simp add: set_bool_def store_bool_def boolean_trues_def boolean_falses_def Let_def)
  have 2: "set_bool (Ptr a) ''YES'' h = Return (None, h\<lparr>bool_cells := (bool_cells h)(a := True)\<rparr>)"
    "set_bool (Ptr a) '' true '' h = Return (None, h\<lparr>bool_cells := (bool_cells h)(a := True)\<rparr>)"
    "set_bool (Ptr a) ''1'' h = Return (None, h\<lparr>bool_cells := (bool_cells h)(a := True)\<rparr>)"
    "set_bool (Ptr a) ''+'' h = Return (None, h\<lparr>bool_cells := (bool_cells h)(a := True)\<rparr>)"
    "set_bool (Ptr a) ''no'' h = Return (None, h\<lparr>bool_cells := (bool_cells h)(a := False)\<rparr>)"
    "set_bool (Ptr a) ''0'' h = Return (None, h\<lparr>bool_cells := (bool_cells h)(a := False)\<rparr>)"
    "set_bool (Ptr a) ''nil'' h = Return (None, h\<lparr>bool_cells := (bool_cells h)(a := False)\<rparr>)"
    "set_bool (Ptr a) ''maybe'' h = Return (Some (NotBoolean ''maybe''), h)"
    by (simp_all add: set_bool_def store_bool_def boolean_trues_def boolean_falses_def Let_def str_defs)
  show ?thesis unfolding eq using 1 2 by simp
qed

theorem bool_option_coercion_witness:
  "bool_map (run_calls [CallAddBool (Ptr 3) ''debug'']) (ToUpper ''Debug'') = Some (Ptr 3) \<and>
   setOption (\<lambda>_. None) (run_calls [CallAddBool (Ptr 3) ''debug'']) heap0 ''Debug'' ''YES'' =
     Return (None, heap0\<lparr>bool_cells := (bool_cells heap0)(3 := True)\<rparr>) \<and>
   setOption (\<lambda>_. None) (run_calls [CallAddBool (Ptr 3) ''debug'']) heap0 ''Debug'' ''maybe'' =
     Return (Some (NotBoolean ''maybe''), heap0)"
proof -
  let ?reg = "run_calls [CallAddBool (Ptr 3) ''debug'']"
  have t: "bool_map ?reg (ToUpper ''Debug'') = Some (Ptr 3)"
    by (simp add: call_defs)
  from bool_option_coercion[OF refl t, of "\<lambda>_. None" heap0 "''x''"] t
  show ?thesis by simp
qed

section \<open>Dispatch of setOption on the stored flags\<close>

lemma and_tag_via_all:
  fixes f :: u8
  shows "f AND STRING = (f AND all_types) AND STRING"
    "f AND INT_type = (f AND all_types) AND INT_type"
    "f AND FLOAT = (f AND all_types) AND FLOAT"
    "f AND BOOL = (f AND all_types) AND BOOL"
  by (simp_all add: and.assoc flag_defs)

lemma exact_tag_STRING: "exact_tag STRING f \<Longrightarrow> hasAttr f STRING"
  unfolding exact_tag_def hasAttr_def
  by (subst and_tag_via_all(1)) (simp add: flag_defs)

lemma exact_tag_INT:
  "exact_tag INT_type f \<Longrightarrow> \<not> hasAttr f STRING \<and> hasAttr f INT_type"
  unfolding exact_tag_def hasAttr_def
  by (subst and_tag_via_all(1), subst and_tag_via_all(2)) (simp add: flag_defs)

lemma exact_tag_FLOAT:
  "exact_tag FLOAT f \<Longrightarrow> \<not> hasAttr f STRING \<and> \<not> hasAttr f INT_type \<and> hasAttr f FLOAT"
  unfolding exact_tag_def hasAttr_def
  by (subst and_tag_via_all(1), subst and_tag_via_all(2), subst and_tag_via_all(3))
     (simp add: flag_defs)

lemma exact_tag_BOOL:
  "exact_tag BOOL f \<Longrightarrow>
   \<not> hasAttr f STRING \<and> \<not> hasAttr f INT_type \<and> \<not> hasAttr f FLOAT \<and> hasAttr f BOOL"
  unfolding exact_tag_def hasAttr_def
  by (subst and_tag_via_all(1), subst and_tag_via_all(2), subst and_tag_via_all(3),
      subst and_tag_via_all(4)) (simp add: flag_defs)

lemma setOption_branches:
  assumes "option_flags reg (ToUpper name) = Some flags"
  shows "hasAttr flags STRING \<Longrightarrow> str_map reg (ToUpper name) = Some p \<Longrightarrow>
           setOption pf reg h name value = set_string flags p value h"
    and "\<not> hasAttr flags STRING \<Longrightarrow> hasAttr flags INT_type \<Longrightarrow>
           int_map reg (ToUpper name) = Some p \<Longrightarrow>
           setOption pf reg h name value = set_int flags p value h"
    and "\<not> hasAttr flags STRING \<Longrightarrow> \<not> hasAttr flags INT_type \<Longrightarrow> hasAttr flags FLOAT \<Longrightarrow>
           float_map reg (ToUpper name) = Some p \<Longrightarrow>
           setOption pf reg h name value = set_float pf flags p value h"
    and "\<not> hasAttr flags STRING \<Longrightarrow> \<not> hasAttr flags INT_type \<Longrightarrow> \<not> hasAttr flags FLOAT \<Longrightarrow>
           hasAttr flags BOOL \<Longrightarrow> bool_map reg (ToUpper name) = Some p \<Longrightarrow>
           setOption pf reg h name value = set_bool p value h"
  using assms by (simp_all add: setOption_def index_ptr_def)

lemma OptionType_cases:
  "str_map reg (ToUpper name) = Some p \<Longrightarrow> OptionType reg name = STRING"
  "str_map reg (ToUpper name) = None \<Longrightarrow> int_map reg (ToUpper name) = Some p \<Longrightarrow>
     OptionType reg name = INT_type"
  "str_map reg (ToUpper name) = None \<Longrightarrow> int_map reg (ToUpper name) = None \<Longrightarrow>
     float_map reg (ToUpper name) = Some p \<Longrightarrow> OptionType reg name = FLOAT"
  "str_map reg (ToUpper name) = None \<Longrightarrow> int_map reg (ToUpper name) = None \<Longrightarrow>
     float_map reg (ToUpper name) = None \<Longrightarrow> bool_map reg (ToUpper name) = Some p \<Longrightarrow>
     OptionType reg name = BOOL"
  by (simp_all add: OptionType_def Let_def)

lemma set_no_logical_error:
  "set_string flags p value h \<noteq> Return (Some (LogicalError u v), h')"
  "set_int flags p value h \<noteq> Return (Some (LogicalError u v), h')"
  "set_float pf flags p value h \<noteq> Return (Some (LogicalError u v), h')"
  "set_bool p value h \<noteq> Return (Some (LogicalError u v), h')"
  by (simp_all add: set_string_def set_int_def set_float_def set_bool_def Let_def
        store_str_def store_int_def store_float_def store_bool_def
        split: ptr.splits option.splits)

lemma setOption_exact:
  assumes inv: "decl_at exact_tag reg (ToUpper name)"
    and declared: "option_flags reg (ToUpper name) = Some flags"
  shows "(\<exists>p. OptionType reg name = STRING \<and> str_map reg (ToUpper name) = Some p \<and>
             setOption pf reg h name val = set_string flags p val h) \<or>
          (\<exists>p. OptionType reg name = INT_type \<and> int_map reg (ToUpper name) = Some p \<and>
             setOption pf reg h name val = set_int flags p val h) \<or>
          (\<exists>p. OptionType reg name = FLOAT \<and> float_map reg (ToUpper name) = Some p \<and>
             setOption pf reg h name val = set_float pf flags p val h) \<or>
          (\<exists>p. OptionType reg name = BOOL \<and> bool_map reg (ToUpper name) = Some p \<and>
             setOption pf reg h name val = set_bool p val h)"
proof -
  let ?u = "ToUpper name"
  from decl_at_flags[OF inv declared]
  consider
    (s) p where "str_map reg ?u = Some p" "exact_tag STRING flags"
  | (i) p where "int_map reg ?u = Some p" "exact_tag INT_type flags" "str_map reg ?u = None"
  | (f) p where "float_map reg ?u = Some p" "exact_tag FLOAT flags" "str_map reg ?u = None"
        "int_map reg ?u = None"
  | (b) p where "bool_map reg ?u = Some p" "exact_tag BOOL flags" "str_map reg ?u = None"
        "int_map reg ?u = None" "float_map reg ?u = None"
    by blast
  then show ?thesis
  proof cases
    case s
    with setOption_branches(1)[OF declared exact_tag_STRING] OptionType_cases(1)
    show ?thesis by blast
  next
    case i
    from exact_tag_INT[OF i(2)] have "\<not> hasAttr flags STRING" "hasAttr flags INT_type" by simp_all
    from setOption_branches(2)[OF declared this i(1)] OptionType_cases(2)[OF i(3) i(1)] i(1)
    show ?thesis by blast
  next
    case f
    from exact_tag_FLOAT[OF f(2)]
    have "\<not> hasAttr flags STRING" "\<not> hasAttr flags INT_type" "hasAttr flags FLOAT" by simp_all
    from setOption_branches(3)[OF declared this f(1)] OptionType_cases(3)[OF f(3) f(4) f(1)] f(1)
    show ?thesis by blast
  next
    case b
    from exact_tag_BOOL[OF b(2)]
    have "\<not> hasAttr flags STRING" "\<not> hasAttr flags INT_type" "\<not> hasAttr flags FLOAT"
      "hasAttr flags BOOL" by simp_all
    from setOption_branches(4)[OF declared this b(1)]
      OptionType_cases(4)[OF b(3) b(4) b(5) b(1)] b(1)
    show ?thesis by blast
  qed
qed

text \<open>
  C10. Let every call of \<open>AddString\<close>, \<open>AddInt\<close> and \<open>AddFloat\<close> have passed
  flags without any of the four tag bits. Then for a declared name (one that has stored
  flags) \<open>setOption\<close> runs exactly the block of the type \<open>OptionType\<close> reports, the
  map of that type has an entry for the name, so no absent entry is dereferenced, and the
  last branch of the chain (``some logical error has led us here'') is never the result.
\<close>

theorem setOption_dispatch:
  assumes clean: "list_all clean_call cs"
    and reach: "reg = run_calls cs"
    and declared: "option_flags reg (ToUpper name) = Some flags"
  shows "((\<exists>p. OptionType reg name = STRING \<and> str_map reg (ToUpper name) = Some p \<and>
             setOption pf reg h name value = set_string flags p value h) \<or>
          (\<exists>p. OptionType reg name = INT_type \<and> int_map reg (ToUpper name) = Some p \<and>
             setOption pf reg h name value = set_int flags p value h) \<or>
          (\<exists>p. OptionType reg name = FLOAT \<and> float_map reg (ToUpper name) = Some p \<and>
             setOption pf reg h name value = set_float pf flags p value h) \<or>
          (\<exists>p. OptionType reg name = BOOL \<and> bool_map reg (ToUpper name) = Some p \<and>
             setOption pf reg h name value = set_bool p value h)) \<and>
         (\<forall>u v h'. setOption pf reg h name value \<noteq> Return (Some (LogicalError u v), h'))"
proof -
  have "decl_at exact_tag reg (ToUpper name)"
    using exact_tag_run_calls[OF clean] reach by (simp add: registry_inv_def)
  from setOption_exact[OF this declared, where pf = pf and h = h and val = "value"]
  have main:
    "(\<exists>p. OptionType reg name = STRING \<and> str_map reg (ToUpper name) = Some p \<and>
             setOption pf reg h name value = set_string flags p value h) \<or>
     (\<exists>p. OptionType reg name = INT_type \<and> int_map reg (ToUpper name) = Some p \<and>
             setOption pf reg h name value = set_int flags p value h) \<or>
     (\<exists>p. OptionType reg name = FLOAT \<and> float_map reg (ToUpper name) = Some p \<and>
             setOption pf reg h name value = set_float pf flags p value h) \<or>
     (\<exists>p. OptionType reg name = BOOL \<and> bool_map reg (ToUpper name) = Some p \<and>
             setOption pf reg h name value = set_bool p value h)" .
  then have "\<forall>u v h'. setOption pf reg h name value \<noteq> Return (Some (LogicalError u v), h')"
    by (auto simp: set_no_logical_error)
  with main show ?thesis by blast
qed

theorem setOption_dispatch_witness:
  "list_all clean_call [CallAddInt (Ptr 0) ''n'' UNSIGNED, CallAddString (Ptr 1) ''s'' STRIP] \<and>
   option_flags (run_calls [CallAddInt (Ptr 0) ''n'' UNSIGNED, CallAddString (Ptr 1) ''s'' STRIP])
     (ToUpper ''n'') = Some 72 \<and>
   OptionType (run_calls [CallAddInt (Ptr 0) ''n'' UNSIGNED, CallAddString (Ptr 1) ''s'' STRIP])
     ''n'' = INT_type \<and>
   setOption (\<lambda>_. None)
     (run_calls [CallAddInt (Ptr 0) ''n'' UNSIGNED, CallAddString (Ptr 1) ''s'' STRIP])
     heap0 ''n'' ''5'' = set_int 72 (Ptr 0) ''5'' heap0"
proof -
  let ?cs = "[CallAddInt (Ptr 0) ''n'' UNSIGNED, CallAddString (Ptr 1) ''s'' STRIP]"
  have c: "list_all clean_call ?cs"
    by (simp add: flag_bits_only_def flag_defs)
  have f: "option_flags (run_calls ?cs) (ToUpper ''n'') = Some 72"
    by (simp add: call_defs)
  have t: "OptionType (run_calls ?cs) ''n'' = INT_type"
    by (simp add: call_defs)
  have m: "int_map (run_calls ?cs) (ToUpper ''n'') = Some (Ptr 0)"
    by (simp add: call_defs)
  have ne: "INT_type \<noteq> STRING" "INT_type \<noteq> FLOAT" "INT_type \<noteq> BOOL"
    by (simp_all add: flag_defs)
  from setOption_dispatch[OF c refl f, of "\<lambda>_. None" heap0 "''5''"]
  have "setOption (\<lambda>_. None) (run_calls ?cs) heap0 ''n'' ''5'' = set_int 72 (Ptr 0) ''5'' heap0"
    unfolding t m using ne by auto
  with c f t show ?thesis by blast
qed

section \<open>One declaration for each canonical name\<close>

lemma decl_at_most_one:
  "decl_at P reg u \<Longrightarrow>
   length (filter (\<lambda>m. m u \<noteq> None) [str_map reg, int_map reg, float_map reg, bool_map reg]) \<le> 1"
  by (auto simp: decl_at_def)

lemma optionExists_canonical:
  "OptionType reg name \<noteq> NONE \<Longrightarrow> ToUpper name' = ToUpper name \<Longrightarrow>
   optionExists reg (ToUpper name')"
  by (simp add: optionExists_iff OptionType_NONE_iff)

text \<open>
  C7, as stated, fails where the second call also passes flags its function rejects:
  the flag test comes first, so the error is the unsupported-flag one and not the
  duplicate-option one. Here \<^verbatim>\<open>a\<close> is declared, and \<^verbatim>\<open>AddInt(&m, "A", STRIP)\<close>
  returns ``unsupported flag for integer option type''.
\<close>

theorem duplicate_rejected_counterexample:
  "OptionType (run_calls [CallAddInt (Ptr 0) ''a'' NONE]) ''a'' = INT_type \<and>
   ToUpper ''A'' = ToUpper ''a'' \<and>
   AddInt (run_calls [CallAddInt (Ptr 0) ''a'' NONE]) (Ptr 1) ''A'' STRIP =
     (Some (UnsupportedFlag INT_type), run_calls [CallAddInt (Ptr 0) ''a'' NONE]) \<and>
   UnsupportedFlag INT_type \<noteq> DuplicateOption (ToUpper ''A'')"
  by (simp add: call_defs)

text \<open>
  C7, amended. In every registry reached by calls of the exported functions a canonical
  name is a key of at most one of the four maps. A further registration whose name has
  the canonical form of a declared name, whatever the two types and the letter case,
  leaves the registry as it was and returns an error: the duplicate-option error, unless
  \<open>AddString\<close>, \<open>AddInt\<close> or \<open>AddFloat\<close> is given flags that fail its flag test, in
  which case it is the unsupported-flag error.
\<close>

theorem one_declaration_per_name:
  assumes reach: "reg = run_calls cs"
  shows "length (filter (\<lambda>m. m u \<noteq> None)
           [str_map reg, int_map reg, float_map reg, bool_map reg]) \<le> 1 \<and>
         (OptionType reg name \<noteq> NONE \<and> ToUpper name' = ToUpper name \<longrightarrow>
            AddBool reg t name' = (Some (DuplicateOption (ToUpper name)), reg) \<and>
            AddString reg t name' f =
              (Some (if f AND disallowed_str_opts \<noteq> 0 then UnsupportedFlag STRING
                     else DuplicateOption (ToUpper name)), reg) \<and>
            AddInt reg t name' f =
              (Some (if f AND disallowed_int_opts \<noteq> 0 then UnsupportedFlag INT_type
                     else DuplicateOption (ToUpper name)), reg) \<and>
            AddFloat reg t name' f =
              (Some (if f AND disallowed_float_opts \<noteq> 0 then UnsupportedFlag FLOAT
                     else DuplicateOption (ToUpper name)), reg))"
proof -
  have "decl_at has_tag reg u"
    using run_calls_decl_at[of cs u] reach by simp
  then have one: "length (filter (\<lambda>m. m u \<noteq> None)
           [str_map reg, int_map reg, float_map reg, bool_map reg]) \<le> 1"
    by (rule decl_at_most_one)
  have dup: "AddBool reg t name' = (Some (DuplicateOption (ToUpper name)), reg) \<and>
            AddString reg t name' f =
              (Some (if f AND disallowed_str_opts \<noteq> 0 then UnsupportedFlag STRING
                     else DuplicateOption (ToUpper name)), reg) \<and>
            AddInt reg t name' f =
              (Some (if f AND disallowed_int_opts \<noteq> 0 then UnsupportedFlag INT_type
                     else DuplicateOption (ToUpper name)), reg) \<and>
            AddFloat reg t name' f =
              (Some (if f AND disallowed_float_opts \<noteq> 0 then UnsupportedFlag FLOAT
                     else DuplicateOption (ToUpper name)), reg)"
    if "OptionType reg name \<noteq> NONE" "ToUpper name' = ToUpper name"
  proof -
    from optionExists_canonical[OF that] have "optionExists reg (ToUpper name')" .
    then show ?thesis using that(2)
      by (simp add: AddBool_def AddString_def AddInt_def AddFloat_def Let_def)
  qed
  from one dup show ?thesis by blast
qed

theorem one_declaration_per_name_witness:
  "length (filter (\<lambda>m. m ''A'' \<noteq> None)
     [str_map (run_calls [CallAddInt (Ptr 0) ''a'' NONE]),
      int_map (run_calls [CallAddInt (Ptr 0) ''a'' NONE]),
      float_map (run_calls [CallAddInt (Ptr 0) ''a'' NONE]),
      bool_map (run_calls [CallAddInt (Ptr 0) ''a'' NONE])]) \<le> 1 \<and>
   OptionType (run_calls [CallAddInt (Ptr 0) ''a'' NONE]) ''a'' \<noteq> NONE \<and>
   ToUpper ''A'' = ToUpper ''a'' \<and>
   AddBool (run_calls [CallAddInt (Ptr 0) ''a'' NONE]) (Ptr 1) ''A'' =
     (Some (DuplicateOption ''A''), run_calls [CallAddInt (Ptr 0) ''a'' NONE]) \<and>
   AddString (run_calls [CallAddInt (Ptr 0) ''a'' NONE]) (Ptr 1) ''A'' NONE =
     (Some (DuplicateOption ''A''), run_calls [CallAddInt (Ptr 0) ''a'' NONE]) \<and>
   AddInt (run_calls [CallAddInt (Ptr 0) ''a'' NONE]) (Ptr 1) ''A'' NONE =
     (Some (DuplicateOption ''A''), run_calls [CallAddInt (Ptr 0) ''a'' NONE]) \<and>
   AddFloat (run_calls [CallAddInt (Ptr 0) ''a'' NONE]) (Ptr 1) ''A'' NONE =
     (Some (DuplicateOption ''A''), run_calls [CallAddInt (Ptr 0) ''a'' NONE])"
proof -
  let ?reg = "run_calls [CallAddInt (Ptr 0) ''a'' NONE]"
  have d: "OptionType ?reg ''a'' \<noteq> NONE"
    by (simp add: call_defs)
  have c: "ToUpper ''A'' = ToUpper ''a''" "ToUpper ''a'' = ''A''"
    by (simp_all add: str_defs)
  have z: "NONE AND disallowed_str_opts = 0" "NONE AND disallowed_int_opts = 0"
    "NONE AND disallowed_float_opts = 0"
    by (simp_all add: flag_defs)
  from one_declaration_per_name[where cs = "[CallAddInt (Ptr 0) ''a'' NONE]" and u = "''A''"
      and name = "''a''" and name' = "''A''" and t = "Ptr 1" and f = NONE, OF refl] d c z
  show ?thesis by simp
qed

section \<open>File discovery\<close>

lemma find_cfg_file_find:
  "find_cfg_file fs files = (case find (os_Stat fs) files of None \<Rightarrow> [] | Some p \<Rightarrow> p)"
  by (induction files) simp_all

lemma find_os_Stat_nonempty: "find (os_Stat fs) files = Some p \<Longrightarrow> p \<noteq> [] \<and> fs p \<noteq> Absent"
  by (induction files) (auto simp: os_Stat_def split: if_splits)

text \<open>
  C8. \<open>Configure\<close> takes the first candidate path that \<^verbatim>\<open>os.Stat\<close> finds and no
  other: with no such path it returns the no-configuration-file error; when the path is
  found and cannot be opened it returns the file-open error for that path; when it can be
  read, the result is that of scanning the lines of that one file. With candidates
  \<open>[a, b]\<close> of which only \<open>b\<close> exists, the result is that of \<open>[b]\<close>; with neither, the
  no-configuration-file error.
\<close>

theorem Configure_file_discovery:
  "(find (os_Stat fs) files = None \<longrightarrow>
      Configure pf fs reg h files = Return (Some NoConfigFileFound, h)) \<and>
   (\<forall>p. find (os_Stat fs) files = Some p \<and> fs p = Unopenable \<longrightarrow>
      Configure pf fs reg h files = Return (Some (FileOpenError p), h)) \<and>
   (\<forall>p ls. find (os_Stat fs) files = Some p \<and> fs p = Readable ls \<longrightarrow>
      Configure pf fs reg h files =
        (case scan_lines pf reg h ls of Panic \<Rightarrow> Panic | Return h' \<Rightarrow> Return (None, h'))) \<and>
   (\<not> os_Stat fs a \<and> os_Stat fs b \<longrightarrow>
      Configure pf fs reg h [a, b] = Configure pf fs reg h [b] \<and>
      (\<forall>ls. fs b = Readable ls \<longrightarrow>
         Configure pf fs reg h [a, b] =
           (case scan_lines pf reg h ls of Panic \<Rightarrow> Panic | Return h' \<Rightarrow> Return (None, h')))) \<and>
   (\<not> os_Stat fs a \<and> \<not> os_Stat fs b \<longrightarrow>
      Configure pf fs reg h [a, b] = Return (Some NoConfigFileFound, h))"
proof -
  have 1: "Configure pf fs reg h files = Return (Some NoConfigFileFound, h)"
    if "find (os_Stat fs) files = None"
    using that by (simp add: Configure_def find_cfg_file_find)
  have 2: "Configure pf fs reg h files = Return (Some (FileOpenError p), h)"
    if "find (os_Stat fs) files = Some p" "fs p = Unopenable" for p
    using that find_os_Stat_nonempty[OF that(1)]
    by (simp add: Configure_def find_cfg_file_find os_Open_def)
  have 3: "Configure pf fs reg h files =
        (case scan_lines pf reg h ls of Panic \<Rightarrow> Panic | Return h' \<Rightarrow> Return (None, h'))"
    if "find (os_Stat fs) files = Some p" "fs p = Readable ls" for p ls
    using that find_os_Stat_nonempty[OF that(1)]
    by (simp add: Configure_def find_cfg_file_find os_Open_def)
  have 4: "Configure pf fs reg h [a, b] = Configure pf fs reg h [b] \<and>
      (\<forall>ls. fs b = Readable ls \<longrightarrow>
         Configure pf fs reg h [a, b] =
           (case scan_lines pf reg h ls of Panic \<Rightarrow> Panic | Return h' \<Rightarrow> Return (None, h')))"
    if "\<not> os_Stat fs a" "os_Stat fs b"
    using that by (auto simp: Configure_def os_Open_def os_Stat_def)
  have 5: "Configure pf fs reg h [a, b] = Return (Some NoConfigFileFound, h)"
    if "\<not> os_Stat fs a" "\<not> os_Stat fs b"
    using that by (simp add: Configure_def)
  from 1 2 3 4 5 show ?thesis by blast
qed

theorem Configure_file_discovery_witness:
  "find (os_Stat fs0) [''a.conf'', ''d.conf''] = None \<and>
   Configure (\<lambda>_. None) fs0 Reset heap0 [''a.conf'', ''d.conf''] =
     Return (Some NoConfigFileFound, heap0) \<and>
   find (os_Stat fs0) [''a.conf'', ''c.conf'', ''b.conf''] = Some ''c.conf'' \<and>
   Configure (\<lambda>_. None) fs0 Reset heap0 [''a.conf'', ''c.conf'', ''b.conf''] =
     Return (Some (FileOpenError ''c.conf''), heap0) \<and>
   find (os_Stat fs0) [''a.conf'', ''b.conf''] = Some ''b.conf'' \<and>
   Configure (\<lambda>_. None) fs0 Reset heap0 [''a.conf'', ''b.conf''] =
     (case scan_lines (\<lambda>_. None) Reset heap0 [''# settings'', ''x=7''] of
        Panic \<Rightarrow> Panic | Return h' \<Rightarrow> Return (None, h'))"
proof -
  have a: "find (os_Stat fs0) [''a.conf'', ''d.conf''] = None"
    by (simp add: fs0_def os_Stat_def)
  have c: "find (os_Stat fs0) [''a.conf'', ''c.conf'', ''b.conf''] = Some ''c.conf''"
    "fs0 ''c.conf'' = Unopenable"
    by (simp_all add: fs0_def os_Stat_def)
  have b: "find (os_Stat fs0) [''a.conf'', ''b.conf''] = Some ''b.conf''"
    "fs0 ''b.conf'' = Readable [''# settings'', ''x=7'']"
    by (simp_all add: fs0_def os_Stat_def)
  from Configure_file_discovery[of fs0 "[''a.conf'', ''d.conf'']" "\<lambda>_. None" Reset heap0] a
  have 1: "Configure (\<lambda>_. None) fs0 Reset heap0 [''a.conf'', ''d.conf''] =
     Return (Some NoConfigFileFound, heap0)" by blast
  from Configure_file_discovery[of fs0 "[''a.conf'', ''c.conf'', ''b.conf'']" "\<lambda>_. None" Reset heap0] c
  have 2: "Configure (\<lambda>_. None) fs0 Reset heap0 [''a.conf'', ''c.conf'', ''b.conf''] =
     Return (Some (FileOpenError ''c.conf''), heap0)" by blast
  from Configure_file_discovery[of fs0 "[''a.conf'', ''b.conf'']" "\<lambda>_. None" Reset heap0] b
  have 3: "Configure (\<lambda>_. None) fs0 Reset heap0 [''a.conf'', ''b.conf''] =
     (case scan_lines (\<lambda>_. None) Reset heap0 [''# settings'', ''x=7''] of
        Panic \<Rightarrow> Panic | Return h' \<Rightarrow> Return (None, h'))" by blast
  from a c b 1 2 3 show ?thesis by blast
qed

section \<open>Scanning twice\<close>

lemma overlay_no_delta [simp]: "overlay no_delta h = h"
  by (simp add: overlay_def no_delta_def)

lemma overlay_join: "overlay d2 (overlay d1 h) = overlay (join d1 d2) h"
  by (simp add: overlay_def join_def map_add_def fun_eq_iff split: option.splits)

lemma overlay_idem: "overlay d (overlay d h) = overlay d h"
  by (simp add: overlay_def fun_eq_iff split: option.splits)

lemma write_overlay:
  "h\<lparr>str_cells := (str_cells h)(a := s)\<rparr> = overlay (no_delta\<lparr>d_str := [a \<mapsto> s]\<rparr>) h"
  "h\<lparr>int_cells := (int_cells h)(a := i)\<rparr> = overlay (no_delta\<lparr>d_int := [a \<mapsto> i]\<rparr>) h"
  "h\<lparr>float_cells := (float_cells h)(a := x)\<rparr> = overlay (no_delta\<lparr>d_float := [a \<mapsto> x]\<rparr>) h"
  "h\<lparr>bool_cells := (bool_cells h)(a := b)\<rparr> = overlay (no_delta\<lparr>d_bool := [a \<mapsto> b]\<rparr>) h"
  by (simp_all add: overlay_def no_delta_def fun_eq_iff)

lemma uniform_Return: "uniform (\<lambda>h. Return (e, h))"
  unfolding uniform_def by (rule disjI2, rule exI[of _ e], rule exI[of _ no_delta]) simp

lemma uniform_store:
  "uniform (store_str p s)" "uniform (store_int p i)" "uniform (store_float p x)"
  "uniform (store_bool p b)"
proof -
  show "uniform (store_str p s)"
  proof (cases p)
    case Nil then show ?thesis by (simp add: uniform_def store_str_def)
  next
    case (Ptr a)
    then have "\<forall>h. store_str p s h = Return (None, overlay (no_delta\<lparr>d_str := [a \<mapsto> s]\<rparr>) h)"
      by (simp add: store_str_def write_overlay(1)[symmetric])
    then show ?thesis unfolding uniform_def by blast
  qed
  show "uniform (store_int p i)"
  proof (cases p)
    case Nil then show ?thesis by (simp add: uniform_def store_int_def)
  next
    case (Ptr a)
    then have "\<forall>h. store_int p i h = Return (None, overlay (no_delta\<lparr>d_int := [a \<mapsto> i]\<rparr>) h)"
      by (simp add: store_int_def write_overlay(2)[symmetric])
    then show ?thesis unfolding uniform_def by blast
  qed
  show "uniform (store_float p x)"
  proof (cases p)
    case Nil then show ?thesis by (simp add: uniform_def store_float_def)
  next
    case (Ptr a)
    then have "\<forall>h. store_float p x h = Return (None, overlay (no_delta\<lparr>d_float := [a \<mapsto> x]\<rparr>) h)"
      by (simp add: store_float_def write_overlay(3)[symmetric])
    then show ?thesis unfolding uniform_def by blast
  qed
  show "uniform (store_bool p b)"
  proof (cases p)
    case Nil then show ?thesis by (simp add: uniform_def store_bool_def)
  next
    case (Ptr a)
    then have "\<forall>h. store_bool p b h = Return (None, overlay (no_delta\<lparr>d_bool := [a \<mapsto> b]\<rparr>) h)"
      by (simp add: store_bool_def write_overlay(4)[symmetric])
    then show ?thesis unfolding uniform_def by blast
  qed
qed

lemma uniform_case_option:
  assumes "x = None \<Longrightarrow> uniform f" and "\<And>v. x = Some v \<Longrightarrow> uniform (g v)"
  shows "uniform (\<lambda>h. case x of None \<Rightarrow> f h | Some v \<Rightarrow> g v h)"
proof (cases x)
  case None
  then show ?thesis using assms(1) by simp
next
  case (Some v)
  then show ?thesis using assms(2)[of v] by simp
qed

lemma uniform_if:
  assumes "c \<Longrightarrow> uniform f" and "\<not> c \<Longrightarrow> uniform g"
  shows "uniform (\<lambda>h. if c then f h else g h)"
proof (cases c)
  case True
  then show ?thesis using assms(1) by simp
next
  case False
  then show ?thesis using assms(2) by simp
qed

lemmas uniform_intros =
  uniform_case_option uniform_if uniform_Return uniform_store

lemma uniform_set:
  "uniform (set_string flags p value)" "uniform (set_int flags p value)"
  "uniform (set_float pf flags p value)" "uniform (set_bool p value)"
proof -
  show "uniform (set_string flags p value)"
    unfolding set_string_def Let_def by (rule uniform_store)
  show "uniform (set_int flags p value)"
    unfolding set_int_def Let_def by (intro uniform_intros)
  show "uniform (set_float pf flags p value)"
    unfolding set_float_def Let_def by (intro uniform_intros)
  show "uniform (set_bool p value)"
    unfolding set_bool_def Let_def by (intro uniform_intros)
qed

lemma uniform_setOption: "uniform (\<lambda>h. setOption pf reg h name value)"
  unfolding setOption_def Let_def
  by (intro uniform_intros uniform_set)

lemma scan_lines_uniform:
  "(\<forall>h. scan_lines pf reg h ls = Panic) \<or> (\<exists>d. \<forall>h. scan_lines pf reg h ls = Return (overlay d h))"
proof (induction ls)
  case Nil
  have "\<forall>h. scan_lines pf reg h [] = Return (overlay no_delta h)" by simp
  then show ?case by blast
next
  case (Cons line rest)
  show ?case
  proof (cases "classify line")
    case (Entry k v)
    from uniform_setOption[of pf reg k v]
    consider (panic) "\<forall>h. setOption pf reg h k v = Panic"
      | (ret) e d1 where "\<forall>h. setOption pf reg h k v = Return (e, overlay d1 h)"
      unfolding uniform_def by blast
    then show ?thesis
    proof cases
      case panic
      then show ?thesis using Entry by simp
    next
      case ret
      from Cons.IH show ?thesis
      proof
        assume "\<forall>h. scan_lines pf reg h rest = Panic"
        then show ?thesis using Entry ret by simp
      next
        assume "\<exists>d. \<forall>h. scan_lines pf reg h rest = Return (overlay d h)"
        then obtain d2 where "\<forall>h. scan_lines pf reg h rest = Return (overlay d2 h)" ..
        then have "\<forall>h. scan_lines pf reg h (line # rest) = Return (overlay (join d1 d2) h)"
          using Entry ret by (simp add: overlay_join)
        then show ?thesis by blast
      qed
    qed
  qed (use Cons.IH in simp_all)
qed

lemma scan_lines_idem:
  "scan_lines pf reg h ls = Return h' \<Longrightarrow> scan_lines pf reg h' ls = Return h'"
  using scan_lines_uniform[of pf reg ls] by (auto simp: overlay_idem)

lemma Configure_idem:
  "Configure pf fs reg h files = Return (e, h') \<Longrightarrow> Configure pf fs reg h' files = Return (e, h')"
  unfolding Configure_def Let_def
  by (auto split: if_splits option.splits exec.splits dest: scan_lines_idem)

section \<open>Per-line problems do not stop Configure\<close>

lemma targets_ok_Reset: "targets_ok Reset"
  by (simp add: targets_ok_def Reset_def)

lemma targets_ok_do_call: "targets_ok reg \<Longrightarrow> has_target c \<Longrightarrow> targets_ok (do_call reg c)"
  by (cases c)
     (simp_all add: targets_ok_Reset,
      simp_all add: targets_ok_def AddString_def AddInt_def AddFloat_def AddBool_def Let_def)

lemma targets_ok_foldl:
  "targets_ok reg \<Longrightarrow> list_all has_target cs \<Longrightarrow> targets_ok (foldl do_call reg cs)"
  by (induction cs arbitrary: reg) (simp_all add: targets_ok_do_call)

lemma targets_ok_run_calls: "list_all has_target cs \<Longrightarrow> targets_ok (run_calls cs)"
  by (simp add: run_calls_def targets_ok_foldl targets_ok_Reset)

lemma set_string_no_panic: "set_string flags (Ptr a) v h \<noteq> Panic"
  by (simp add: set_string_def store_str_def Let_def)

lemma set_int_no_panic: "set_int flags (Ptr a) v h \<noteq> Panic"
  by (simp add: set_int_def store_int_def Let_def split: option.splits)

lemma set_float_no_panic: "set_float pf flags (Ptr a) v h \<noteq> Panic"
  by (simp add: set_float_def store_float_def Let_def split: option.splits)

lemma set_bool_no_panic: "set_bool (Ptr a) v h \<noteq> Panic"
  by (simp add: set_bool_def store_bool_def Let_def)

lemmas set_no_panic =
  set_string_no_panic set_int_no_panic set_float_no_panic set_bool_no_panic

lemma ptr_not_Nil: "p \<noteq> Nil \<Longrightarrow> \<exists>a. p = Ptr a"
  by (cases p) simp_all

lemma setOption_no_panic:
  assumes inv: "decl_at exact_tag reg (ToUpper name)" and ok: "targets_ok reg"
  shows "setOption pf reg h name val \<noteq> Panic"
proof (cases "option_flags reg (ToUpper name)")
  case None
  then show ?thesis by (simp add: setOption_def)
next
  case (Some flags)
  from ok have nn: "\<And>p. str_map reg (ToUpper name) = Some p \<Longrightarrow> \<exists>a. p = Ptr a"
    "\<And>p. int_map reg (ToUpper name) = Some p \<Longrightarrow> \<exists>a. p = Ptr a"
    "\<And>p. float_map reg (ToUpper name) = Some p \<Longrightarrow> \<exists>a. p = Ptr a"
    "\<And>p. bool_map reg (ToUpper name) = Some p \<Longrightarrow> \<exists>a. p = Ptr a"
    by (auto simp: targets_ok_def intro!: ptr_not_Nil)
  from setOption_exact[OF inv Some, where pf = pf and h = h and val = val] show ?thesis
    by (auto dest!: nn simp: set_no_panic)
qed

lemma scan_lines_no_panic:
  assumes inv: "registry_inv exact_tag reg" and ok: "targets_ok reg"
  shows "\<exists>h'. scan_lines pf reg h ls = Return h'"
proof (induction ls arbitrary: h)
  case Nil
  show ?case by simp
next
  case (Cons line rest)
  show ?case
  proof (cases "classify line")
    case (Entry k v)
    have "decl_at exact_tag reg (ToUpper k)" using inv by (simp add: registry_inv_def)
    from setOption_no_panic[OF this ok, where pf = pf and h = h and val = v]
    obtain e h1 where "setOption pf reg h k v = Return (e, h1)"
      by (cases "setOption pf reg h k v") auto
    then show ?thesis using Entry Cons.IH[of h1] by simp
  qed (use Cons.IH[of h] in simp_all)
qed


lemma os_Stat_upd:
  "fs p \<noteq> Absent \<Longrightarrow> os_Stat (fs(p := Readable ls)) = os_Stat fs"
  by (auto simp: os_Stat_def fun_eq_iff)

lemma store_not_error:
  "store_str p s h \<noteq> Return (Some e, h1)" "store_int p i h \<noteq> Return (Some e, h1)"
  "store_float p x h \<noteq> Return (Some e, h1)" "store_bool p b h \<noteq> Return (Some e, h1)"
  by (simp_all add: store_str_def store_int_def store_float_def store_bool_def split: ptr.splits)

lemma set_string_error:
  "set_string flags p v h = Return (Some e, h1) \<Longrightarrow> set_string flags p v h0 = Return (Some e, h0)"
  by (simp add: set_string_def Let_def store_not_error)

lemma set_int_error:
  "set_int flags p v h = Return (Some e, h1) \<Longrightarrow> set_int flags p v h0 = Return (Some e, h0)"
  by (auto simp: set_int_def Let_def store_not_error split: option.splits if_splits)

lemma set_float_error:
  "set_float pf flags p v h = Return (Some e, h1) \<Longrightarrow>
   set_float pf flags p v h0 = Return (Some e, h0)"
  by (auto simp: set_float_def Let_def store_not_error split: option.splits if_splits)

lemma set_bool_error:
  "set_bool p v h = Return (Some e, h1) \<Longrightarrow> set_bool p v h0 = Return (Some e, h0)"
  by (auto simp: set_bool_def Let_def store_not_error split: if_splits)

lemma setOption_error:
  "setOption pf reg h k v = Return (Some e, h1) \<Longrightarrow>
   setOption pf reg h0 k v = Return (Some e, h0)"
  unfolding setOption_def Let_def
  by (auto split: option.splits if_splits
        dest: set_string_error set_int_error set_float_error set_bool_error)

lemma setOption_unrecognized:
  "option_flags reg (ToUpper k) = None \<Longrightarrow>
   setOption pf reg h k v = Return (Some (UnrecognizedOption (ToUpper k)), h)"
  by (simp add: setOption_def)

lemma scan_lines_append:
  "scan_lines pf reg h (xs @ ys) =
     (case scan_lines pf reg h xs of Panic \<Rightarrow> Panic | Return h' \<Rightarrow> scan_lines pf reg h' ys)"
  by (induction xs arbitrary: h)
     (auto split: line_class.splits exec.splits prod.splits)

lemma scan_lines_skip:
  assumes "skipped pf reg line"
  shows "scan_lines pf reg h (line # rest) = scan_lines pf reg h rest"
proof (cases "classify line")
  case (Entry k v)
  with assms obtain h0 e h1 where "setOption pf reg h0 k v = Return (Some e, h1)"
    unfolding skipped_def using setOption_unrecognized[of reg k pf undefined v] by auto
  from setOption_error[OF this, of h] show ?thesis using Entry by simp
qed simp_all

lemma Configure_Readable:
  assumes "find (os_Stat fs) files = Some p" "fs p = Readable ls"
  shows "Configure pf fs reg h files =
        (case scan_lines pf reg h ls of Panic \<Rightarrow> Panic | Return h' \<Rightarrow> Return (None, h'))"
  using assms find_os_Stat_nonempty[OF assms(1)]
  by (simp add: Configure_def find_cfg_file_find os_Open_def)

lemma decl_at_exact_int_flags:
  assumes "decl_at exact_tag reg u" "int_map reg u = Some p"
  obtains f where "option_flags reg u = Some f" "\<not> hasAttr f STRING" "hasAttr f INT_type"
  using decl_at_int[OF assms] exact_tag_INT by blast

lemma set_int_7:
  "set_int f (Ptr a) ''7'' h = Return (None, h\<lparr>int_cells := (int_cells h)(a := 7)\<rparr>)"
  by (simp add: set_int_def Let_def store_int_def int_token_def uint_token_def re_digit_def
        Atoi_def digit_val_def decimal_def)

lemma set_int_notanumber:
  "set_int f (Ptr a) ''notanumber'' h = Return (Some (NotInteger []), h)"
  by (simp add: set_int_def Let_def store_int_def int_token_def uint_token_def re_digit_def
        Atoi_def)

lemma classify_examples:
  "classify ''x=7'' = Entry ''x'' ''7''"
  "classify ''x=notanumber'' = Entry ''x'' ''notanumber''"
  "ToUpper ''x'' = ''X''"
  by (simp_all add: classify_def re_defs str_defs)

lemma Configure_no_panic:
  assumes inv: "registry_inv exact_tag reg" and ok: "targets_ok reg"
  shows "\<exists>e h'. Configure pf fs reg h files = Return (e, h')"
  using scan_lines_no_panic[OF inv ok, of pf h]
  unfolding Configure_def Let_def
  by (auto split: option.splits exec.splits) (metis exec.distinct(1))

lemmas conf_defs =
  Configure_def os_Stat_def os_Open_def one_file_def classify_def re_defs set_defs call_defs
  heap4_def heap0_def

text \<open>
  C2, as stated, fails for a registry that holds a nil target: no function of the package
  tests a target, and \<open>setOption\<close> writes through it. After
  \<^verbatim>\<open>AddInt(nil, "x", NONE)\<close> the file with the one line \<^verbatim>\<open>x=7\<close> is found and
  opened, and \<open>Configure\<close> does not return: the write of 7 panics.
\<close>

theorem Configure_nil_target_counterexample:
  "find (os_Stat (one_file [''x=7''])) [''x.conf''] = Some ''x.conf'' \<and>
   os_Open (one_file [''x=7'']) ''x.conf'' = Some [''x=7''] \<and>
   fst (AddInt Reset Nil ''x'' NONE) = None \<and>
   Configure (\<lambda>_. None) (one_file [''x=7'']) (run_calls [CallAddInt Nil ''x'' NONE])
     heap4 [''x.conf''] = Panic"
  by (simp add: conf_defs)

text \<open>
  C2, amended. Let the targets of the registrations be not nil, let their flags hold no
  tag bit, and let the file that is found open. Then \<open>Configure\<close> returns without
  error, whatever the lines of the file. A malformed line, a line for an option that is
  not declared and a line whose value \<open>setOption\<close> rejects have no effect at all: the
  result is that of the file without that line, so the targets keep their values and the
  scan goes on with the next line. With \<open>X\<close> declared as an Integer, the line
  \<^verbatim>\<open>x=7\<close> stores 7 and the line \<^verbatim>\<open>x=notanumber\<close> leaves the heap as it was.
  Nothing is said here of a registry reached by a call that passed a tag bit as a flag.
\<close>

theorem Configure_per_line_problems:
  assumes reach: "reg = run_calls cs"
    and clean: "list_all clean_call cs"
    and targets: "list_all has_target cs"
    and found: "find (os_Stat fs) files = Some p"
    and readable: "fs p = Readable ls"
  shows "(\<exists>h'. Configure pf fs reg h files = Return (None, h')) \<and>
         (\<forall>pre line post. ls = pre @ line # post \<and>
            (classify line = Malformed \<or>
             (\<exists>k v. classify line = Entry k v \<and> option_flags reg (ToUpper k) = None) \<or>
             (\<exists>k v e h0 h1. classify line = Entry k v \<and>
                setOption pf reg h0 k v = Return (Some e, h1))) \<longrightarrow>
            Configure pf fs reg h files =
              Configure pf (fs(p := Readable (pre @ post))) reg h files) \<and>
         (\<forall>a. int_map reg ''X'' = Some (Ptr a) \<and> ls = [''x=7''] \<longrightarrow>
            Configure pf fs reg h files =
              Return (None, h\<lparr>int_cells := (int_cells h)(a := 7)\<rparr>)) \<and>
         (\<forall>a. int_map reg ''X'' = Some (Ptr a) \<and> ls = [''x=notanumber''] \<longrightarrow>
            Configure pf fs reg h files = Return (None, h))"
proof -
  have inv: "registry_inv exact_tag reg"
    using exact_tag_run_calls[OF clean] reach by simp
  have ok: "targets_ok reg"
    using targets_ok_run_calls[OF targets] reach by simp
  note conf = Configure_Readable[OF found readable]
  have 1: "\<exists>h'. Configure pf fs reg h files = Return (None, h')"
    using scan_lines_no_panic[OF inv ok, of pf h ls] by (auto simp: conf)
  have 2: "Configure pf fs reg h files =
              Configure pf (fs(p := Readable (pre @ post))) reg h files"
    if split: "ls = pre @ line # post"
      and prob: "classify line = Malformed \<or>
             (\<exists>k v. classify line = Entry k v \<and> option_flags reg (ToUpper k) = None) \<or>
             (\<exists>k v e h0 h1. classify line = Entry k v \<and>
                setOption pf reg h0 k v = Return (Some e, h1))"
    for pre line post
  proof -
    have sk: "skipped pf reg line"
      using prob unfolding skipped_def by blast
    have present: "fs p \<noteq> Absent" using readable by simp
    have "find (os_Stat (fs(p := Readable (pre @ post)))) files = Some p"
      using found present by (simp add: os_Stat_upd)
    from Configure_Readable[OF this, of "pre @ post" pf reg h]
    have "Configure pf (fs(p := Readable (pre @ post))) reg h files =
        (case scan_lines pf reg h (pre @ post) of
           Panic \<Rightarrow> Panic | Return h' \<Rightarrow> Return (None, h'))"
      by simp
    moreover have "scan_lines pf reg h (pre @ line # post) = scan_lines pf reg h (pre @ post)"
      by (simp only: scan_lines_append scan_lines_skip[OF sk])
    ultimately show ?thesis by (simp add: conf split)
  qed
  have 3: "Configure pf fs reg h files = Return (None, h\<lparr>int_cells := (int_cells h)(a := 7)\<rparr>)"
    if "int_map reg ''X'' = Some (Ptr a)" "ls = [''x=7'']" for a
  proof -
    have "decl_at exact_tag reg ''X''" using inv by (simp add: registry_inv_def)
    from decl_at_exact_int_flags[OF this that(1)] obtain f where
      f: "option_flags reg ''X'' = Some f" "\<not> hasAttr f STRING" "hasAttr f INT_type" .
    have "setOption pf reg h ''x'' ''7'' = set_int f (Ptr a) ''7'' h"
      using f that(1) by (simp add: setOption_def classify_examples index_ptr_def)
    then show ?thesis
      by (simp add: conf that(2) classify_examples set_int_7)
  qed
  have 4: "Configure pf fs reg h files = Return (None, h)"
    if "int_map reg ''X'' = Some (Ptr a)" "ls = [''x=notanumber'']" for a
  proof -
    have "decl_at exact_tag reg ''X''" using inv by (simp add: registry_inv_def)
    from decl_at_exact_int_flags[OF this that(1)] obtain f where
      f: "option_flags reg ''X'' = Some f" "\<not> hasAttr f STRING" "hasAttr f INT_type" .
    have "setOption pf reg h ''x'' ''notanumber'' = set_int f (Ptr a) ''notanumber'' h"
      using f that(1) by (simp add: setOption_def classify_examples index_ptr_def)
    then show ?thesis
      by (simp add: conf that(2) classify_examples set_int_notanumber)
  qed
  show ?thesis
  proof (intro conjI allI impI)
    show "\<exists>h'. Configure pf fs reg h files = Return (None, h')" by (rule 1)
  next
    fix pre line post
    assume "ls = pre @ line # post \<and>
            (classify line = Malformed \<or>
             (\<exists>k v. classify line = Entry k v \<and> option_flags reg (ToUpper k) = None) \<or>
             (\<exists>k v e h0 h1. classify line = Entry k v \<and>
                setOption pf reg h0 k v = Return (Some e, h1)))"
    then show "Configure pf fs reg h files =
              Configure pf (fs(p := Readable (pre @ post))) reg h files"
      using 2[of pre line post] by (elim conjE) simp
  next
    fix a
    assume "int_map reg ''X'' = Some (Ptr a) \<and> ls = [''x=7'']"
    then show "Configure pf fs reg h files =
              Return (None, h\<lparr>int_cells := (int_cells h)(a := 7)\<rparr>)"
      using 3[of a] by simp
  next
    fix a
    assume "int_map reg ''X'' = Some (Ptr a) \<and> ls = [''x=notanumber'']"
    then show "Configure pf fs reg h files = Return (None, h)"
      using 4[of a] by simp
  qed
qed


lemma one_file_facts:
  "find (os_Stat (one_file ls)) [''x.conf''] = Some ''x.conf''"
  "one_file ls ''x.conf'' = Readable ls"
  "(one_file ls)(''x.conf'' := Readable ls') = one_file ls'"
  by (simp_all add: one_file_def os_Stat_def)

theorem Configure_per_line_problems_witness:
  "list_all clean_call [CallAddInt (Ptr 0) ''x'' NONE] \<and>
   list_all has_target [CallAddInt (Ptr 0) ''x'' NONE] \<and>
   int_map (run_calls [CallAddInt (Ptr 0) ''x'' NONE]) ''X'' = Some (Ptr 0) \<and>
   int_cells heap4 0 = 4 \<and>
   Configure (\<lambda>_. None) (one_file [''x=7'']) (run_calls [CallAddInt (Ptr 0) ''x'' NONE])
     heap4 [''x.conf''] = Return (None, heap4\<lparr>int_cells := (int_cells heap4)(0 := 7)\<rparr>) \<and>
   Configure (\<lambda>_. None) (one_file [''x=notanumber''])
     (run_calls [CallAddInt (Ptr 0) ''x'' NONE]) heap4 [''x.conf''] = Return (None, heap4) \<and>
   classify ''no equals sign'' = Malformed \<and>
   Configure (\<lambda>_. None) (one_file [''x=7'', ''no equals sign'', ''x=9''])
     (run_calls [CallAddInt (Ptr 0) ''x'' NONE]) heap4 [''x.conf''] =
   Configure (\<lambda>_. None) (one_file [''x=7'', ''x=9''])
     (run_calls [CallAddInt (Ptr 0) ''x'' NONE]) heap4 [''x.conf'']"
proof -
  let ?cs = "[CallAddInt (Ptr 0) ''x'' NONE]"
  have c: "list_all clean_call ?cs" by (simp add: flag_bits_only_def flag_defs)
  have t: "list_all has_target ?cs" by simp
  have m: "int_map (run_calls ?cs) ''X'' = Some (Ptr 0)" by (simp add: call_defs)
  have v: "int_cells heap4 0 = 4" by (simp add: heap4_def)
  have mal: "classify ''no equals sign'' = Malformed" by (simp add: classify_def re_defs)
  note inst = Configure_per_line_problems[OF refl c t one_file_facts(1) one_file_facts(2),
      where pf = "\<lambda>_. None" and h = heap4]
  from inst[of "[''x=7'']"] m
  have 1: "Configure (\<lambda>_. None) (one_file [''x=7'']) (run_calls ?cs) heap4 [''x.conf''] =
      Return (None, heap4\<lparr>int_cells := (int_cells heap4)(0 := 7)\<rparr>)"
    by blast
  from inst[of "[''x=notanumber'']"] m
  have 2: "Configure (\<lambda>_. None) (one_file [''x=notanumber'']) (run_calls ?cs) heap4 [''x.conf''] =
      Return (None, heap4)"
    by blast
  have "[''x=7'', ''no equals sign'', ''x=9''] = [''x=7''] @ ''no equals sign'' # [''x=9'']"
    by simp
  with inst[of "[''x=7'', ''no equals sign'', ''x=9'']"] mal
  have "Configure (\<lambda>_. None) (one_file [''x=7'', ''no equals sign'', ''x=9'']) (run_calls ?cs)
          heap4 [''x.conf''] =
        Configure (\<lambda>_. None)
          ((one_file [''x=7'', ''no equals sign'', ''x=9''])
             (''x.conf'' := Readable ([''x=7''] @ [''x=9''])))
          (run_calls ?cs) heap4 [''x.conf'']"
    by blast
  then have 3: "Configure (\<lambda>_. None) (one_file [''x=7'', ''no equals sign'', ''x=9''])
          (run_calls ?cs) heap4 [''x.conf''] =
        Configure (\<lambda>_. None) (one_file [''x=7'', ''x=9'']) (run_calls ?cs) heap4 [''x.conf'']"
    by (simp add: one_file_facts(3))
  from c t m v 1 2 mal 3 show ?thesis by blast
qed

text \<open>
  C9. Whenever \<open>Configure\<close> returns, running it again on the heap it left, with the
  same registry and the same files, returns the same error value and leaves every cell as
  the first run left it; this holds for every registry and every file, also when targets
  share a cell. For a registry reached by calls whose targets are not nil and whose flags
  hold no tag bit, \<open>Configure\<close> always returns.
\<close>

theorem Configure_twice:
  "(\<forall>e h'. Configure pf fs reg h files = Return (e, h') \<longrightarrow>
      Configure pf fs reg h' files = Return (e, h')) \<and>
   (reg = run_calls cs \<and> list_all clean_call cs \<and> list_all has_target cs \<longrightarrow>
      (\<exists>e h'. Configure pf fs reg h files = Return (e, h')))"
proof (intro conjI allI impI)
  fix e h'
  assume "Configure pf fs reg h files = Return (e, h')"
  then show "Configure pf fs reg h' files = Return (e, h')" by (rule Configure_idem)
next
  assume a: "reg = run_calls cs \<and> list_all clean_call cs \<and> list_all has_target cs"
  then have "registry_inv exact_tag reg" "targets_ok reg"
    using exact_tag_run_calls[of cs] targets_ok_run_calls[of cs] by simp_all
  then show "\<exists>e h'. Configure pf fs reg h files = Return (e, h')"
    by (rule Configure_no_panic)
qed

theorem Configure_twice_witness:
  "Configure (\<lambda>_. None) (one_file [''# twice'', ''x=7'', ''x = 1'', ''x=8''])
     (run_calls [CallAddInt (Ptr 0) ''x'' NONE]) heap4 [''x.conf''] =
     Return (None, heap4\<lparr>int_cells := (int_cells heap4)(0 := 8)\<rparr>) \<and>
   Configure (\<lambda>_. None) (one_file [''# twice'', ''x=7'', ''x = 1'', ''x=8''])
     (run_calls [CallAddInt (Ptr 0) ''x'' NONE])
     (heap4\<lparr>int_cells := (int_cells heap4)(0 := 8)\<rparr>) [''x.conf''] =
     Return (None, heap4\<lparr>int_cells := (int_cells heap4)(0 := 8)\<rparr>)"
proof -
  have 1: "Configure (\<lambda>_. None) (one_file [''# twice'', ''x=7'', ''x = 1'', ''x=8''])
     (run_calls [CallAddInt (Ptr 0) ''x'' NONE]) heap4 [''x.conf''] =
     Return (None, heap4\<lparr>int_cells := (int_cells heap4)(0 := 8)\<rparr>)"
    by (simp add: conf_defs)
  from Configure_twice[of "\<lambda>_. None" "one_file [''# twice'', ''x=7'', ''x = 1'', ''x=8'']"
      "run_calls [CallAddInt (Ptr 0) ''x'' NONE]" heap4 "[''x.conf'']"] 1
  have "Configure (\<lambda>_. None) (one_file [''# twice'', ''x=7'', ''x = 1'', ''x=8''])
     (run_calls [CallAddInt (Ptr 0) ''x'' NONE])
     (heap4\<lparr>int_cells := (int_cells heap4)(0 := 8)\<rparr>) [''x.conf''] =
     Return (None, heap4\<lparr>int_cells := (int_cells heap4)(0 := 8)\<rparr>)"
    by blast
  with 1 show ?thesis by blast
qed

section \<open>The classification of a line\<close>

text \<open>
  C3, as stated, fails on a line that starts with white space: \<^verbatim>\<open>option_re\<close> begins
  with \<^verbatim>\<open>^\s*\<close>, outside the group that captures the key. For the line
  \<^verbatim>\<open> x=7\<close> the key handed to \<open>setOption\<close> is \<^verbatim>\<open>x\<close>, and the longest prefix
  without \<^verbatim>\<open>:\<close> and \<^verbatim>\<open>=\<close> is \<^verbatim>\<open> x\<close>.
\<close>

theorem classify_key_counterexample:
  "classify '' x=7'' = Entry ''x'' ''7'' \<and> spec_classify '' x=7'' = Entry '' x'' ''7''"
  by (simp add: classify_def spec_classify_def re_defs)

lemma comment_re_iff:
  "comment_re line \<longleftrightarrow> (\<exists>ws rest. line = ws @ CHR ''#'' # rest \<and> list_all re_space ws)"
proof
  assume "comment_re line"
  then obtain rest where "dropWhile re_space line = CHR ''#'' # rest"
    by (auto simp: comment_re_def split: list.splits)
  then have "line = takeWhile re_space line @ CHR ''#'' # rest"
    by (metis takeWhile_dropWhile_id)
  moreover have "list_all re_space (takeWhile re_space line)"
    by (simp add: list_all_iff) (meson set_takeWhileD)
  ultimately show "\<exists>ws rest. line = ws @ CHR ''#'' # rest \<and> list_all re_space ws" by blast
next
  assume "\<exists>ws rest. line = ws @ CHR ''#'' # rest \<and> list_all re_space ws"
  then obtain ws rest where l: "line = ws @ CHR ''#'' # rest" and ws: "list_all re_space ws" by blast
  have "\<not> re_space (CHR ''#'')" by (simp add: re_space_def)
  with ws have "dropWhile re_space line = CHR ''#'' # rest"
    unfolding l by (simp add: dropWhile_append list_all_iff)
  then show "comment_re line" by (simp add: comment_re_def)
qed

lemma nonblank_re_iff: "\<not> nonblank_re line \<longleftrightarrow> list_all re_space line"
  by (simp add: nonblank_re_def list_all_iff list_ex_iff)

lemma space_not_colon_eq: "re_space c \<Longrightarrow> not_colon_eq c"
  by (auto simp: re_space_def not_colon_eq_def)

lemma takeWhile_split:
  "list_all P xs \<Longrightarrow> \<not> P y \<Longrightarrow> takeWhile P (xs @ y # ys) = xs"
  by (simp add: takeWhile_tail list_all_iff)

lemma dropWhile_split:
  "list_all P xs \<Longrightarrow> \<not> P y \<Longrightarrow> dropWhile P (xs @ y # ys) = y # ys"
  by (simp add: dropWhile_append list_all_iff)

lemma option_re_sound:
  assumes m: "option_re line = Some (k, v)"
  shows "\<exists>ws. line = ws @ k @ CHR ''='' # v \<and> list_all re_space ws \<and> k \<noteq> [] \<and>
        list_all not_colon_eq k \<and> (\<not> re_space (hd k) \<or> length k = 1)"
proof -
  define p where "p = takeWhile not_colon_eq line"
  define ws where "ws = takeWhile re_space p"
  define n where "n = (if length ws < length p then length ws else length p - 1)"
  from m have r: "dropWhile not_colon_eq line = CHR ''='' # v" and pne: "p \<noteq> []"
    and k: "k = drop n p"
    by (auto simp: option_re_def Let_def p_def ws_def n_def split: list.splits if_splits)
  have line: "line = p @ CHR ''='' # v"
    using r by (metis p_def takeWhile_dropWhile_id)
  have n_le: "n \<le> length ws" "n < length p"
    using pne by (auto simp: n_def ws_def intro: le_trans[OF _ length_takeWhile_le])
  have pw: "p = ws @ dropWhile re_space p"
    by (simp add: ws_def)
  have "take n p = take n ws"
    by (subst pw) (use n_le(1) in simp)
  moreover have "list_all re_space ws"
    unfolding ws_def list_all_iff by (meson set_takeWhileD)
  ultimately have 1: "list_all re_space (take n p)"
    by (auto simp: list_all_iff dest: in_set_takeD)
  have 2: "line = take n p @ k @ CHR ''='' # v"
    by (simp add: k line)
  have 3: "k \<noteq> []" using n_le(2) by (simp add: k)
  have "list_all not_colon_eq p"
    unfolding p_def list_all_iff by (meson set_takeWhileD)
  then have 4: "list_all not_colon_eq k"
    by (auto simp: k list_all_iff dest: in_set_dropD)
  have 5: "\<not> re_space (hd k) \<or> length k = 1"
  proof (cases "length ws < length p")
    case True
    then have "n = length ws" by (simp add: n_def)
    then have "k = dropWhile re_space p"
      unfolding k ws_def by (simp add: dropWhile_eq_drop)
    with 3 show ?thesis using hd_dropWhile[of re_space p] by simp
  next
    case False
    then have "n = length p - 1" by (simp add: n_def)
    then show ?thesis using pne by (cases p) (simp_all add: k)
  qed
  from 1 2 3 4 5 show ?thesis by blast
qed

lemma option_re_complete:
  assumes nl: "CHR 0x0A \<notin> set line"
    and l: "line = ws @ k @ CHR ''='' # v" and sp: "list_all re_space ws" and kne: "k \<noteq> []"
    and kc: "list_all not_colon_eq k" and hk: "\<not> re_space (hd k) \<or> length k = 1"
  shows "option_re line = Some (k, v)"
proof -
  have wc: "list_all not_colon_eq (ws @ k)"
    using sp kc by (auto simp: list_all_iff space_not_colon_eq)
  have neq: "\<not> not_colon_eq (CHR ''='')" by (simp add: not_colon_eq_def)
  have l': "line = (ws @ k) @ CHR ''='' # v" using l by simp
  have p: "takeWhile not_colon_eq line = ws @ k"
    unfolding l' by (rule takeWhile_split[OF wc neq])
  have r: "dropWhile not_colon_eq line = CHR ''='' # v"
    unfolding l' by (rule dropWhile_split[OF wc neq])
  have v: "CHR 0x0A \<notin> set v" using nl l by simp
  have d: "drop (if length (takeWhile re_space (ws @ k)) < length (ws @ k)
                 then length (takeWhile re_space (ws @ k)) else length (ws @ k) - 1) (ws @ k) = k"
  proof (cases "re_space (hd k)")
    case False
    obtain c cs where k: "k = c # cs" using kne by (cases k) auto
    with False have "takeWhile re_space (ws @ k) = ws"
      by (simp add: takeWhile_split[OF sp])
    then show ?thesis by (simp add: k)
  next
    case True
    with hk have "length k = 1" by simp
    then obtain c where k: "k = [c]" by (cases k) auto
    with True have "list_all re_space (ws @ k)" using sp by simp
    then have "takeWhile re_space (ws @ k) = ws @ k"
      by (simp add: takeWhile_eq_all_conv list_all_iff)
    then show ?thesis by (simp add: k)
  qed
  show ?thesis
    unfolding option_re_def Let_def p r using v kne d by simp
qed

lemma option_re_iff:
  assumes nl: "CHR 0x0A \<notin> set line"
  shows "option_re line = Some (k, v) \<longleftrightarrow>
     (\<exists>ws. line = ws @ k @ CHR ''='' # v \<and> list_all re_space ws \<and> k \<noteq> [] \<and>
        list_all not_colon_eq k \<and> (\<not> re_space (hd k) \<or> length k = 1))"
  using option_re_sound[of line k v] option_re_complete[OF nl, of _ k v] by blast

text \<open>
  C3, amended. For a physical line (one without a line feed) the tests are made in this
  order. The line is a comment exactly when it is white space followed by \<^verbatim>\<open>#\<close>,
  whatever follows. It is blank exactly when all its characters are white space.
  It is an entry with key \<open>k\<close> and value \<open>v\<close> exactly when it is no comment and is
  white space, then \<open>k\<close>, then \<^verbatim>\<open>=\<close>, then \<open>v\<close>, where \<open>k\<close> is not empty, holds no
  \<^verbatim>\<open>:\<close> and no \<^verbatim>\<open>=\<close> and does not start with white space, unless it is one single
  white space character: the key is the longest prefix without \<^verbatim>\<open>:\<close> and \<^verbatim>\<open>=\<close>
  with its leading white space removed (all but the last character, when that prefix is
  white space only), and the value is the whole rest of the line. Every other line is
  malformed.
\<close>

theorem classify_line:
  assumes nl: "CHR 0x0A \<notin> set line"
  shows "(classify line = Comment \<longleftrightarrow>
            (\<exists>ws rest. line = ws @ CHR ''#'' # rest \<and> list_all re_space ws)) \<and>
         (classify line = Blank \<longleftrightarrow> list_all re_space line) \<and>
         (\<forall>k v. classify line = Entry k v \<longleftrightarrow>
            classify line \<noteq> Comment \<and>
            (\<exists>ws. line = ws @ k @ CHR ''='' # v \<and> list_all re_space ws \<and> k \<noteq> [] \<and>
               list_all not_colon_eq k \<and> (\<not> re_space (hd k) \<or> length k = 1))) \<and>
         (classify line = Malformed \<longleftrightarrow>
            classify line \<noteq> Comment \<and> classify line \<noteq> Blank \<and>
            (\<forall>k v. classify line \<noteq> Entry k v))"
proof -
  have blank_not_comment: "list_all re_space line \<Longrightarrow> \<not> comment_re line"
    by (auto simp: comment_re_iff re_space_def)
  have 1: "classify line = Comment \<longleftrightarrow>
            (\<exists>ws rest. line = ws @ CHR ''#'' # rest \<and> list_all re_space ws)"
    unfolding comment_re_iff[symmetric]
    by (auto simp: classify_def split: option.splits)
  have 2: "classify line = Blank \<longleftrightarrow> list_all re_space line"
    using blank_not_comment
    by (auto simp: classify_def nonblank_re_iff[symmetric] split: option.splits)
  have entry_nonblank: "nonblank_re line"
    if "line = ws @ k @ CHR ''='' # v" for ws k v
    using that by (auto simp: nonblank_re_def list_ex_iff re_space_def)
  have 3: "classify line = Entry k v \<longleftrightarrow>
            classify line \<noteq> Comment \<and>
            (\<exists>ws. line = ws @ k @ CHR ''='' # v \<and> list_all re_space ws \<and> k \<noteq> [] \<and>
               list_all not_colon_eq k \<and> (\<not> re_space (hd k) \<or> length k = 1))" for k v
    unfolding option_re_iff[OF nl, symmetric]
    using option_re_sound[of line k v] entry_nonblank
    by (auto simp: classify_def split: option.splits)
  have 4: "classify line = Malformed \<longleftrightarrow>
            classify line \<noteq> Comment \<and> classify line \<noteq> Blank \<and>
            (\<forall>k v. classify line \<noteq> Entry k v)"
    by (cases "classify line") auto
  from 1 2 3 4 show ?thesis by blast
qed

theorem classify_line_witness:
  "CHR 0x0A \<notin> set '' x=7'' \<and> classify '' x=7'' = Entry ''x'' ''7'' \<and>
   classify '' x=7'' \<noteq> Comment"
proof -
  have nl: "CHR 0x0A \<notin> set '' x=7''" by simp
  have nc: "classify '' x=7'' \<noteq> Comment" by (simp add: classify_def re_defs)
  have "'' x=7'' = '' '' @ ''x'' @ CHR ''='' # ''7'' \<and> list_all re_space '' '' \<and> ''x'' \<noteq> [] \<and>
      list_all not_colon_eq ''x'' \<and> (\<not> re_space (hd ''x'') \<or> length ''x'' = 1)"
    by (simp add: re_space_def not_colon_eq_def)
  with classify_line[OF nl] nc have "classify '' x=7'' = Entry ''x'' ''7''" by blast
  with nl nc show ?thesis by blast
qed

section \<open>Coercion of Integer options\<close>

lemma takeWhile_all_append:
  "list_all P xs \<Longrightarrow> takeWhile P (xs @ ys) = xs @ takeWhile P ys"
  by (induction xs) simp_all

lemma list_all_takeWhile: "list_all P (takeWhile P xs)"
  by (induction xs) simp_all

lemma minus_not_digit: "\<not> re_digit (CHR ''-'')"
  by (simp add: re_digit_def)

lemma match_token_sound:
  assumes "match_token sg re_digit s = Some t"
  shows "token_shape sg t \<and> (\<exists>post. s = t @ post)"
proof (cases s)
  case Nil
  with assms show ?thesis by simp
next
  case (Cons c cs)
  show ?thesis
  proof (cases "sg \<and> c = CHR ''-'' \<and> takeWhile re_digit cs \<noteq> []")
    case True
    with assms Cons have t: "t = c # takeWhile re_digit cs" by simp
    have "s = t @ dropWhile re_digit cs" by (simp add: t Cons)
    moreover have "token_shape sg t"
      using True by (simp add: t token_shape_def list_all_takeWhile)
    ultimately show ?thesis by blast
  next
    case False
    with assms Cons have c: "re_digit c" and t: "t = c # takeWhile re_digit cs"
      by (auto split: if_splits)
    have "s = t @ dropWhile re_digit cs" by (simp add: t Cons)
    moreover have "token_shape sg t"
      using c by (simp add: t token_shape_def list_all_takeWhile)
    ultimately show ?thesis by blast
  qed
qed

lemma match_token_complete:
  assumes "token_shape sg t'"
  shows "\<exists>t. match_token sg re_digit (t' @ post') = Some t \<and> length t' \<le> length t"
proof -
  from assms obtain c cs where t': "t' = c # cs" by (cases t') (auto simp: token_shape_def)
  show ?thesis
  proof (cases "list_all re_digit t'")
    case True
    then have c: "re_digit c" "list_all re_digit cs" by (simp_all add: t')
    then have "c \<noteq> CHR ''-''" using minus_not_digit by auto
    then have "match_token sg re_digit (t' @ post') = Some (c # cs @ takeWhile re_digit post')"
      using c by (simp add: t' takeWhile_all_append)
    then show ?thesis by (simp add: t')
  next
    case False
    with assms have m: "sg" "c = CHR ''-''" "cs \<noteq> []" "list_all re_digit cs"
      by (auto simp: token_shape_def t')
    then have "takeWhile re_digit (cs @ post') = cs @ takeWhile re_digit post'"
      by (simp add: takeWhile_all_append)
    then have "match_token sg re_digit (t' @ post') = Some (c # cs @ takeWhile re_digit post')"
      using m by (simp add: t')
    then show ?thesis by (simp add: t')
  qed
qed

lemma FindString_first:
  "(FindString sg re_digit s = [] \<and>
      (\<forall>pre rest. s = pre @ rest \<longrightarrow> match_token sg re_digit rest = None)) \<or>
   (\<exists>pre post. s = pre @ FindString sg re_digit s @ post \<and>
      match_token sg re_digit (FindString sg re_digit s @ post) = Some (FindString sg re_digit s) \<and>
      (\<forall>pre' rest'. s = pre' @ rest' \<and> length pre' < length pre \<longrightarrow>
         match_token sg re_digit rest' = None))"
proof (induction s)
  case Nil
  then show ?case by simp
next
  case (Cons c cs)
  show ?case
  proof (cases "match_token sg re_digit (c # cs)")
    case (Some t)
    then have F: "FindString sg re_digit (c # cs) = t" by simp
    from match_token_sound[OF Some] obtain post where "c # cs = t @ post" by blast
    then have "c # cs = [] @ t @ post \<and> match_token sg re_digit (t @ post) = Some t"
      using Some by simp
    then show ?thesis unfolding F by (intro disjI2) (metis length_0_conv less_nat_zero_code list.size(3))
  next
    case None
    then have F: "FindString sg re_digit (c # cs) = FindString sg re_digit cs" by simp
    let ?t = "FindString sg re_digit cs"
    from Cons.IH show ?thesis
    proof
      assume a: "?t = [] \<and> (\<forall>pre rest. cs = pre @ rest \<longrightarrow> match_token sg re_digit rest = None)"
      have "match_token sg re_digit rest = None" if "c # cs = pre @ rest" for pre rest
      proof (cases pre)
        case Nil
        with that None show ?thesis by simp
      next
        case (Cons x xs)
        with that have "cs = xs @ rest" by simp
        with a show ?thesis by blast
      qed
      with a show ?thesis unfolding F by blast
    next
      assume "\<exists>pre post. cs = pre @ ?t @ post \<and>
          match_token sg re_digit (?t @ post) = Some ?t \<and>
          (\<forall>pre' rest'. cs = pre' @ rest' \<and> length pre' < length pre \<longrightarrow>
             match_token sg re_digit rest' = None)"
      then obtain pre post where p: "cs = pre @ ?t @ post"
        "match_token sg re_digit (?t @ post) = Some ?t"
        "\<forall>pre' rest'. cs = pre' @ rest' \<and> length pre' < length pre \<longrightarrow>
             match_token sg re_digit rest' = None"
        by blast
      have e: "match_token sg re_digit rest' = None"
        if "c # cs = pre' @ rest'" "length pre' < length (c # pre)" for pre' rest'
      proof (cases pre')
        case Nil
        with that None show ?thesis by simp
      next
        case (Cons x xs)
        with that have "cs = xs @ rest'" "length xs < length pre" by simp_all
        with p(3) show ?thesis by blast
      qed
      have "c # cs = (c # pre) @ ?t @ post" using p(1) by simp
      with p(2) e show ?thesis unfolding F by blast
    qed
  qed
qed

lemma FindString_spec:
  "(has_token sg s \<longrightarrow> first_token sg s (FindString sg re_digit s)) \<and>
   (\<not> has_token sg s \<longrightarrow> FindString sg re_digit s = [])"
proof -
  let ?t = "FindString sg re_digit s"
  from FindString_first[of sg s] show ?thesis
  proof
    assume a: "?t = [] \<and> (\<forall>pre rest. s = pre @ rest \<longrightarrow> match_token sg re_digit rest = None)"
    have "\<not> has_token sg s"
    proof
      assume "has_token sg s"
      then obtain pre t post where d: "s = pre @ t @ post" "token_shape sg t"
        unfolding has_token_def by blast
      from match_token_complete[OF d(2), of post] a d(1) show False by auto
    qed
    with a show ?thesis by simp
  next
    assume "\<exists>pre post. s = pre @ ?t @ post \<and>
      match_token sg re_digit (?t @ post) = Some ?t \<and>
      (\<forall>pre' rest'. s = pre' @ rest' \<and> length pre' < length pre \<longrightarrow>
         match_token sg re_digit rest' = None)"
    then obtain pre post where p: "s = pre @ ?t @ post"
      "match_token sg re_digit (?t @ post) = Some ?t"
      "\<forall>pre' rest'. s = pre' @ rest' \<and> length pre' < length pre \<longrightarrow>
         match_token sg re_digit rest' = None"
      by blast
    from match_token_sound[OF p(2)] have sh: "token_shape sg ?t" by blast
    have later: "length pre < length pre' \<or> (length pre = length pre' \<and> length t' \<le> length ?t)"
      if d: "s = pre' @ t' @ post'" "token_shape sg t'" for pre' t' post'
    proof -
      from match_token_complete[OF d(2), of post'] obtain t where
        t: "match_token sg re_digit (t' @ post') = Some t" "length t' \<le> length t" by blast
      have "\<not> length pre' < length pre" using p(3) d(1) t(1) by auto
      moreover have "length t' \<le> length ?t" if "length pre = length pre'"
      proof -
        from that p(1) d(1) have "pre = pre'" "?t @ post = t' @ post'"
          by (metis append_eq_append_conv)+
        with p(2) t show ?thesis by simp
      qed
      ultimately show ?thesis by linarith
    qed
    have "first_token sg s ?t"
      unfolding first_token_def using p(1) sh later by blast
    moreover have "has_token sg s"
      unfolding has_token_def using p(1) sh by blast
    ultimately show ?thesis by simp
  qed
qed


lemma first_token_unique:
  assumes "first_token sg s t" "first_token sg s t'"
  shows "t = t'"
proof -
  from assms(1) obtain pre post where a: "s = pre @ t @ post" "token_shape sg t"
    "\<forall>pre' t' post'. s = pre' @ t' @ post' \<and> token_shape sg t' \<longrightarrow>
           length pre < length pre' \<or> (length pre = length pre' \<and> length t' \<le> length t)"
    unfolding first_token_def by blast
  from assms(2) obtain pre' post' where b: "s = pre' @ t' @ post'" "token_shape sg t'"
    "\<forall>pre t post. s = pre @ t @ post \<and> token_shape sg t \<longrightarrow>
           length pre' < length pre \<or> (length pre' = length pre \<and> length t \<le> length t')"
    unfolding first_token_def by blast
  from a(3) b(1,2) have 1: "length pre < length pre' \<or> (length pre = length pre' \<and> length t' \<le> length t)"
    by blast
  from b(3) a(1,2) have 2: "length pre' < length pre \<or> (length pre' = length pre \<and> length t \<le> length t')"
    by blast
  from 1 2 have l: "length pre = length pre'" "length t = length t'" by linarith+
  from a(1) b(1) l(1) have "t @ post = t' @ post'" by (metis append_eq_append_conv)
  with l(2) show ?thesis by (metis append_eq_append_conv)
qed

lemma setOption_int:
  assumes inv: "decl_at has_tag reg (ToUpper name)"
    and target: "int_map reg (ToUpper name) = Some p"
    and flags: "option_flags reg (ToUpper name) = Some flags"
    and nostr: "\<not> hasAttr flags STRING"
  shows "setOption pf reg h name val = set_int flags p val h"
proof -
  from decl_at_int[OF inv target] flags have "has_tag INT_type flags" by auto
  then have "hasAttr flags INT_type" by (simp add: has_tag_def flag_defs)
  from setOption_branches(2)[OF flags nostr this target]
  show ?thesis .
qed

lemma token_cases:
  "(if hasAttr flags UNSIGNED then uint_token value else int_token value) =
     FindString (\<not> hasAttr flags UNSIGNED) re_digit value"
  by (simp add: uint_token_def int_token_def)

text \<open>
  What the integer block does. For an option declared as an Integer whose stored flags
  do not hold the \<open>STRING\<close> bit, with a target that is not nil, \<open>setOption\<close> takes the
  first substring of the value that has the shape of the token (digits only when
  \<open>UNSIGNED\<close> is set, else an optional minus sign and digits; the empty string when there
  is none), parses it with \<^verbatim>\<open>strconv.Atoi\<close> and writes the integer to the target;
  when the parse fails it returns an error and writes nothing. With \<open>UNSIGNED\<close> set, the
  value \<^verbatim>\<open>-42\<close> stores 42.
\<close>

lemma int_option_extraction:
  assumes reach: "reg = run_calls cs"
    and target: "int_map reg (ToUpper name) = Some (Ptr a)"
    and flags: "option_flags reg (ToUpper name) = Some flags"
    and nostr: "\<not> hasAttr flags STRING"
  shows "(\<exists>tok. (if has_token (\<not> hasAttr flags UNSIGNED) value
                 then first_token (\<not> hasAttr flags UNSIGNED) value tok
                 else tok = []) \<and>
            setOption pf reg h name value =
              (case Atoi tok of
                 None \<Rightarrow> Return (Some (NotInteger tok), h)
               | Some iv \<Rightarrow> Return (None, h\<lparr>int_cells := (int_cells h)(a := iv)\<rparr>))) \<and>
         (hasAttr flags UNSIGNED \<longrightarrow>
            setOption pf reg h name ''-42'' =
              Return (None, h\<lparr>int_cells := (int_cells h)(a := 42)\<rparr>))"
proof -
  have inv: "decl_at has_tag reg (ToUpper name)"
    using run_calls_decl_at[of cs "ToUpper name"] reach by simp
  note eq = setOption_int[OF inv target flags nostr]
  let ?tok = "FindString (\<not> hasAttr flags UNSIGNED) re_digit value"
  have "setOption pf reg h name value =
              (case Atoi ?tok of
                 None \<Rightarrow> Return (Some (NotInteger ?tok), h)
               | Some iv \<Rightarrow> Return (None, h\<lparr>int_cells := (int_cells h)(a := iv)\<rparr>))"
    unfolding eq set_int_def Let_def token_cases
    by (simp add: store_int_def split: option.splits)
  moreover have "if has_token (\<not> hasAttr flags UNSIGNED) value
                 then first_token (\<not> hasAttr flags UNSIGNED) value ?tok
                 else ?tok = []"
    using FindString_spec[of "\<not> hasAttr flags UNSIGNED" "value"] by simp
  ultimately have 1: "\<exists>tok. (if has_token (\<not> hasAttr flags UNSIGNED) value
                 then first_token (\<not> hasAttr flags UNSIGNED) value tok
                 else tok = []) \<and>
            setOption pf reg h name value =
              (case Atoi tok of
                 None \<Rightarrow> Return (Some (NotInteger tok), h)
               | Some iv \<Rightarrow> Return (None, h\<lparr>int_cells := (int_cells h)(a := iv)\<rparr>))"
    by blast
  have 2: "setOption pf reg h name ''-42'' =
              Return (None, h\<lparr>int_cells := (int_cells h)(a := 42)\<rparr>)"
    if "hasAttr flags UNSIGNED"
    unfolding eq using that
    by (simp add: set_int_def Let_def store_int_def uint_token_def re_digit_def Atoi_def
          digit_val_def decimal_def)
  from 1 2 show ?thesis by blast
qed

lemma int_option_extraction_example:
  "int_map (run_calls [CallAddInt (Ptr 0) ''count'' UNSIGNED]) (ToUpper ''count'') =
     Some (Ptr 0) \<and>
   option_flags (run_calls [CallAddInt (Ptr 0) ''count'' UNSIGNED]) (ToUpper ''count'') =
     Some 72 \<and>
   hasAttr 72 UNSIGNED \<and> \<not> hasAttr 72 STRING \<and>
   setOption (\<lambda>_. None) (run_calls [CallAddInt (Ptr 0) ''count'' UNSIGNED]) heap0
     ''count'' ''-42'' = Return (None, heap0\<lparr>int_cells := (int_cells heap0)(0 := 42)\<rparr>)"
proof -
  let ?cs = "[CallAddInt (Ptr 0) ''count'' UNSIGNED]"
  have t: "int_map (run_calls ?cs) (ToUpper ''count'') = Some (Ptr 0)" by (simp add: call_defs)
  have f: "option_flags (run_calls ?cs) (ToUpper ''count'') = Some 72" by (simp add: call_defs)
  have u: "hasAttr 72 UNSIGNED" "\<not> hasAttr 72 STRING" by (simp_all add: hasAttr_def flag_defs)
  from int_option_extraction[OF refl t f u(2), where pf = "\<lambda>_. None" and h = heap0] u(1)
  have "setOption (\<lambda>_. None) (run_calls ?cs) heap0 ''count'' ''-42'' =
      Return (None, heap0\<lparr>int_cells := (int_cells heap0)(0 := 42)\<rparr>)"
    by blast
  with t f u show ?thesis by blast
qed

text \<open>
  C6. Every declared Integer option is to have the first token of its value parsed and
  written to its target. \<^verbatim>\<open>AddInt(&n, "a", STRING)\<close> returns no error and declares
  \<^verbatim>\<open>a\<close> as an Integer option with the target \<^verbatim>\<open>&n\<close>: \<open>OptionType\<close> answers
  \<open>INT_type\<close> and \<open>int_map\<close> holds the target. The value \<^verbatim>\<open>5\<close> has the token
  \<^verbatim>\<open>5\<close>, which \<^verbatim>\<open>strconv.Atoi\<close> parses to 5. The stored flags hold the
  \<open>STRING\<close> bit as well, so \<open>setOption\<close> does not reach the integer block: it takes
  the string block, finds no entry in \<open>str_map\<close> and panics, and 5 is not written. The
  same registration with the flags \<open>NONE\<close> stores 5.
\<close>

theorem int_option_with_string_tag_panics:
  "fst (AddInt Reset (Ptr 0) ''a'' STRING) = None \<and>
   OptionType (run_calls [CallAddInt (Ptr 0) ''a'' STRING]) ''a'' = INT_type \<and>
   int_map (run_calls [CallAddInt (Ptr 0) ''a'' STRING]) (ToUpper ''a'') = Some (Ptr 0) \<and>
   int_token ''5'' = ''5'' \<and> Atoi ''5'' = Some 5 \<and>
   setOption pf (run_calls [CallAddInt (Ptr 0) ''a'' STRING]) h ''a'' ''5'' = Panic \<and>
   setOption pf (run_calls [CallAddInt (Ptr 0) ''a'' NONE]) h ''a'' ''5'' =
     Return (None, h\<lparr>int_cells := (int_cells h)(0 := 5)\<rparr>)"
  by (simp add: call_defs set_defs re_defs)

end
